theory Spec2Isabelle
  imports Complex_Main "HOL-Library.Multiset" "HOL-Library.Product_Lexorder" "HOL-Library.AList"
begin

section \<open>Hybrid retrieval and ranking engine of the tender knowledge base\<close>

text \<open>
  Shallow embedding of the retrieval core: the hybrid score stage of
  \<^verbatim>\<open>retrieval/search_engine.py\<close>, the vector store writer of
  \<^verbatim>\<open>etl/vector_store.py\<close>, the persisted lexical index of
  \<^verbatim>\<open>utils/bm25_manager.py\<close>, the chain graph of \<^verbatim>\<open>utils/graph_manager.py\<close> and the
  query lifecycle \<^verbatim>\<open>chat_stream\<close> of \<^verbatim>\<open>generation/rag_service.py\<close>.

  Python strings are lists of characters; one list element stands for one Python character,
  so \<open>length\<close> is Python's \<open>len\<close>. The character type has 256 values: an ASCII character is
  itself, and each of the other characters that occur in the string constants modelled here is
  one value from 128 on, by this table of code points:

  \<^verbatim>\<open>80 U+6240  81 U+6709  82 U+9879  83 U+76EE  84 U+7C7B  85 U+578B  86 U+64B0  87 U+5199\<close>
  \<^verbatim>\<open>88 U+751F  89 U+6210  8A U+4E00  8B U+4EFD  8C U+4EFF  8D U+7167  8E U+8D77  8F U+8349\<close>
  \<^verbatim>\<open>90 U+7F16  91 U+5236  92 U+53C2  93 U+8003  94 U+6839  95 U+636E  96 U+57FA  97 U+4E8E\<close>
  \<^verbatim>\<open>98 U+6A21  99 U+56FE  9A U+8C31  9B U+5173  9C U+8054\<close>

  Python floats are modelled by exact reals. Exceptions are values of the type \<open>py_error\<close>;
  external services (embedding model, BM25 scorer, vector database, cross-encoder, language
  model) are parameters of the functions that call them.
\<close>

datatype py_error =
  IndexError | KeyError | AssertionError | DuplicateIDError | BackendError string

subsection \<open>Hybrid score stage: \<^verbatim>\<open>TenderRetriever._apply_bm25_score\<close>\<close>

text \<open>
  A candidate is the dictionary built in \<^verbatim>\<open>TenderRetriever.search\<close>: id, content, metadata,
  score and source file; \<^verbatim>\<open>_apply_bm25_score\<close> adds the key \<^verbatim>\<open>bm25_score\<close>.
\<close>

record candidate =
  cand_id :: string
  cand_content :: string
  cand_metadata :: "(string \<times> string) list"
  score :: real
  cand_source_file :: string
  bm25_score :: "real option"

text \<open>
  \<^verbatim>\<open>max_bm25 = max(scores) if scores.any() else 1.0\<close>: the array \<open>scores\<close> is what the
  external \<^verbatim>\<open>BM25Okapi.get_scores\<close> returned, one entry per candidate.
\<close>

definition max_bm25_of :: "real list \<Rightarrow> real" where
  "max_bm25_of scores =
     (case scores of
        [] \<Rightarrow> 1
      | s # ss \<Rightarrow> if list_ex (\<lambda>x. x \<noteq> 0) scores then fold max ss s else 1)"

text \<open>\<^verbatim>\<open>bm25_norm = scores[i] / max_bm25 if max_bm25 > 0 else 0\<close>\<close>

definition bm25_norm :: "real \<Rightarrow> real \<Rightarrow> real" where
  "bm25_norm max_bm25 s = (if max_bm25 > 0 then s / max_bm25 else 0)"

text \<open>The body of the loop: the two assignments to \<^verbatim>\<open>doc['score']\<close> and \<^verbatim>\<open>doc['bm25_score']\<close>.\<close>

definition add_bm25 :: "real \<Rightarrow> candidate \<Rightarrow> real \<Rightarrow> candidate" where
  "add_bm25 max_bm25 doc s =
     doc\<lparr>score := score doc + (bm25_norm max_bm25 s * 0.3), bm25_score := Some s\<rparr>"

text \<open>
  \<^verbatim>\<open>candidates.sort(key=lambda x: x['score'], reverse=True)\<close> is a stable descending sort:
  candidates with equal scores keep their order.
\<close>

definition sort_by_score_desc :: "candidate list \<Rightarrow> candidate list" where
  "sort_by_score_desc cs = sort_key (\<lambda>x. - score x) cs"

text \<open>
  The whole function. \<^verbatim>\<open>scores[i]\<close> raises \<^verbatim>\<open>IndexError\<close> when the score array is shorter than
  the batch (the BM25 library returns one score per document of the corpus it was built from,
  so this does not happen with the real scorer).
\<close>

definition apply_bm25_score :: "real list \<Rightarrow> candidate list \<Rightarrow> py_error + candidate list" where
  "apply_bm25_score scores candidates =
     (if candidates = [] then Inr []
      else if length scores < length candidates then Inl IndexError
      else Inr (sort_by_score_desc
                  (map (\<lambda>(doc, s). add_bm25 (max_bm25_of scores) doc s) (zip candidates scores))))"

text \<open>
  The formula as the specification words it: the normalised lexical score is the raw score
  divided by the batch maximum, and 0 when the batch maximum is 0.
\<close>

definition spec_normalized :: "real list \<Rightarrow> real \<Rightarrow> real" where
  "spec_normalized scores s = (if Max (set scores) = 0 then 0 else s / Max (set scores))"

definition spec_combined :: "real list \<Rightarrow> real \<Rightarrow> real \<Rightarrow> real" where
  "spec_combined scores v s = v + 0.3 * spec_normalized scores s"

text \<open>Example batches used to evaluate the stage on concrete inputs.\<close>

definition cand_a :: candidate where
  "cand_a = \<lparr>cand_id = ''a'', cand_content = ''x'', cand_metadata = [], score = 1/2,
             cand_source_file = ''f.pdf'', bm25_score = None\<rparr>"

definition cand_b :: candidate where
  "cand_b = \<lparr>cand_id = ''b'', cand_content = ''y'', cand_metadata = [], score = 2/5,
             cand_source_file = ''f.pdf'', bm25_score = None\<rparr>"

subsection \<open>Documents and candidate fusion: section 3.4 of \<^verbatim>\<open>chat_stream\<close>\<close>

text \<open>
  A LangChain \<^verbatim>\<open>Document\<close> has a text and a metadata dictionary. The dictionary is modelled
  by a record of the keys the retrieval code reads or writes, and of the key \<^verbatim>\<open>score\<close> under
  which a stored metadata dictionary may carry a number; \<open>None\<close> is an absent key
  (\<^verbatim>\<open>metadata.get(key)\<close> returns \<^verbatim>\<open>None\<close>).
\<close>

record doc_metadata =
  md_chunk_id :: "string option"
  md_source_file :: "string option"
  md_source_method :: "string option"
  md_project_name :: "string option"
  md_category :: "string option"
  md_type :: "string option"
  md_page :: "string option"
  md_score :: "real option"

record document =
  page_content :: string
  metadata :: doc_metadata

text \<open>Python truthiness of \<^verbatim>\<open>metadata.get(key)\<close>: absent and the empty string are false.\<close>

fun truthy :: "string option \<Rightarrow> bool" where
  "truthy None = False"
| "truthy (Some s) = (s \<noteq> [])"

text \<open>
  The loop keeps chunk ids and, for documents without one, whole page contents in the same
  set \<^verbatim>\<open>unique_ids\<close>. \<open>dedup_key\<close> is the element the loop tests and adds for a document.
\<close>

definition dedup_key :: "document \<Rightarrow> string" where
  "dedup_key d =
     (case md_chunk_id (metadata d) of
        Some cid \<Rightarrow> if cid \<noteq> [] then cid else page_content d
      | None \<Rightarrow> page_content d)"

definition set_source_method :: "string \<Rightarrow> document \<Rightarrow> document" where
  "set_source_method m d = d\<lparr>metadata := (metadata d)\<lparr>md_source_method := Some m\<rparr>\<rparr>"

text \<open>
  State of the loop \<^verbatim>\<open>for d in bm25_docs + vector_docs\<close>. The assignment
  \<^verbatim>\<open>d.metadata["source_method"] = ...\<close> mutates the document object, which for a lexical hit
  is also an element of \<^verbatim>\<open>bm25_docs\<close>: the state carries that list, and a lexical item carries
  its index in it.
\<close>

record merge_state =
  unique_ids :: "string set"
  initial_docs :: "document list"
  bm25_docs :: "document list"

text \<open>
  \<^verbatim>\<open>"BM25" if d in bm25_docs else "Vector"\<close>: \<^verbatim>\<open>in\<close> is true for an element of the list itself
  (identity), and otherwise compares by value with the current elements.
\<close>

definition in_bm25_docs :: "nat option \<Rightarrow> document \<Rightarrow> merge_state \<Rightarrow> bool" where
  "in_bm25_docs origin d st = (case origin of Some i \<Rightarrow> True | None \<Rightarrow> d \<in> set (bm25_docs st))"

definition keep_doc :: "nat option \<Rightarrow> document \<Rightarrow> string \<Rightarrow> merge_state \<Rightarrow> merge_state" where
  "keep_doc origin d k st =
     (let d' = set_source_method (if in_bm25_docs origin d st then ''BM25'' else ''Vector'') d
      in st\<lparr>unique_ids := insert k (unique_ids st),
            initial_docs := initial_docs st @ [d'],
            bm25_docs := (case origin of Some i \<Rightarrow> (bm25_docs st)[i := d']
                                       | None \<Rightarrow> bm25_docs st)\<rparr>)"

definition merge_step :: "nat option \<times> document \<Rightarrow> merge_state \<Rightarrow> merge_state" where
  "merge_step item st =
     (case item of (origin, d) \<Rightarrow>
        if truthy (md_chunk_id (metadata d)) then
          (if the (md_chunk_id (metadata d)) \<notin> unique_ids st
           then keep_doc origin d (the (md_chunk_id (metadata d))) st else st)
        else if page_content d \<notin> unique_ids st
          then keep_doc origin d (page_content d) st
        else st)"

fun merge_loop :: "(nat option \<times> document) list \<Rightarrow> merge_state \<Rightarrow> merge_state" where
  "merge_loop [] st = st"
| "merge_loop (item # items) st = merge_loop items (merge_step item st)"

definition merge_items :: "document list \<Rightarrow> document list \<Rightarrow> (nat option \<times> document) list" where
  "merge_items bm25 vector =
     map (\<lambda>(i, d). (Some i, d)) (enumerate 0 bm25) @ map (\<lambda>d. (None, d)) vector"

definition merge_dedup :: "document list \<Rightarrow> document list \<Rightarrow> merge_state" where
  "merge_dedup bm25 vector =
     merge_loop (merge_items bm25 vector)
       \<lparr>unique_ids = {}, initial_docs = [], bm25_docs = bm25\<rparr>"

text \<open>
  Modelled from the spec: the size it gives for the fused list of two candidate lists that
  share \<open>N\<close> keys, \<open>|A| + |B| - N\<close>.
\<close>

definition spec_fused_size :: "document list \<Rightarrow> document list \<Rightarrow> nat" where
  "spec_fused_size A B =
     length A + length B - card (set (map dedup_key A) \<inter> set (map dedup_key B))"

text \<open>Example documents: a constructor for the keys the examples set, and six hits.\<close>

definition mk_doc :: "string option \<Rightarrow> string \<Rightarrow> string option \<Rightarrow> document" where
  "mk_doc cid txt file =
     \<lparr>page_content = txt,
      metadata = \<lparr>md_chunk_id = cid, md_source_file = file, md_source_method = None,
                   md_project_name = None, md_category = None, md_type = None,
                   md_page = None, md_score = None\<rparr>\<rparr>"

definition doc_lex1 :: document where
  "doc_lex1 = mk_doc (Some ''c1'') ''excavators: 4'' (Some ''a.pdf'')"

definition doc_lex2 :: document where
  "doc_lex2 = mk_doc None ''legacy text'' (Some ''a.pdf'')"

definition doc_vec1 :: document where
  "doc_vec1 = mk_doc (Some ''c1'') ''excavators: 4 (vector copy)'' (Some ''a.pdf'')"

definition doc_vec2 :: document where
  "doc_vec2 = mk_doc (Some ''c3'') ''dump trucks: 10'' (Some ''a.pdf'')"

definition doc_vec3 :: document where
  "doc_vec3 = mk_doc None ''legacy text'' (Some ''b.pdf'')"

text \<open>A second lexical hit with the chunk id of the first, as found in another project's index.\<close>

definition doc_lex3 :: document where
  "doc_lex3 = mk_doc (Some ''c1'') ''excavators: 4 (second index)'' (Some ''a.pdf'')"

subsection \<open>Vector store writer: \<^verbatim>\<open>VectorStoreManager.add_chunks\<close>\<close>

text \<open>
  Values of a chunk's metadata dictionary. \<^verbatim>\<open>add_chunks\<close> only distinguishes \<^verbatim>\<open>None\<close>, lists
  and dictionaries (replaced by their \<^verbatim>\<open>str\<close> rendering, which \<open>MColl\<close> carries) and
  everything else (kept).
\<close>

datatype meta_value = MNone | MStr string | MInt int | MBool bool | MColl string

text \<open>
  \<^verbatim>\<open>IndexableChunk\<close> of \<^verbatim>\<open>ingestion/tender_parser.py\<close>. A dictionary whose order matters
  (\<^verbatim>\<open>meta.items()\<close>) is an association list with distinct keys; assignment to a key is
  \<open>AList.update\<close>: in place when the key exists, appended otherwise.
\<close>

record indexable_chunk =
  content :: string
  chunk_metadata :: "(string \<times> meta_value) list"
  chunk_id :: string
  parent_id :: "string option"
  is_parent :: bool

text \<open>One record of the collection: document text, cleaned metadata, embedding.\<close>

record 'e vs_record =
  vs_document :: string
  vs_metadata :: "(string \<times> meta_value) list"
  vs_embedding :: 'e

type_synonym 'e collection = "(string \<times> 'e vs_record) list"

text \<open>
  \<^verbatim>\<open>parent_map = {c.chunk_id: c.content for c in chunks if getattr(c, 'is_parent', False)}\<close>:
  a later parent with the same id overwrites an earlier one.
\<close>

definition parent_map :: "indexable_chunk list \<Rightarrow> string \<rightharpoonup> string" where
  "parent_map chunks = map_of (rev (map (\<lambda>c. (chunk_id c, content c)) (filter is_parent chunks)))"

text \<open>\<^verbatim>\<open>getattr(chunk, 'is_parent', False) and len(chunk.content) > 800\<close>\<close>

definition too_long_parent :: "indexable_chunk \<Rightarrow> bool" where
  "too_long_parent chunk = (is_parent chunk \<and> length (content chunk) > 800)"

text \<open>The parent/child fusion: the two assignments to \<^verbatim>\<open>meta\<close>.\<close>

definition fuse_parent ::
  "(string \<rightharpoonup> string) \<Rightarrow> indexable_chunk \<Rightarrow> (string \<times> meta_value) list" where
  "fuse_parent pm chunk =
     (case (if truthy (parent_id chunk) then pm (the (parent_id chunk)) else None) of
        Some parent_content \<Rightarrow>
          AList.update ''is_child'' (MStr ''True'')
            (AList.update ''full_context'' (MStr parent_content) (chunk_metadata chunk))
      | None \<Rightarrow>
          AList.update ''is_child'' (MStr ''False'')
            (AList.update ''full_context'' (MStr (content chunk)) (chunk_metadata chunk)))"

fun clean_value :: "meta_value \<Rightarrow> meta_value" where
  "clean_value MNone = MStr ''''"
| "clean_value (MColl rendering) = MStr rendering"
| "clean_value v = v"

definition clean_meta :: "(string \<times> meta_value) list \<Rightarrow> (string \<times> meta_value) list" where
  "clean_meta meta = map (\<lambda>(k, v). (k, clean_value v)) meta"

text \<open>
  The first loop of \<^verbatim>\<open>add_chunks\<close>: the parallel lists \<^verbatim>\<open>ids\<close>, \<^verbatim>\<open>documents\<close>, \<^verbatim>\<open>metadatas\<close>
  and the embeddings of \<^verbatim>\<open>texts_to_embed\<close>, as one list of (id, record) pairs. \<open>encode\<close> is
  the external sentence encoder, applied to each text.
\<close>

definition prepare_records ::
  "(string \<Rightarrow> 'e) \<Rightarrow> indexable_chunk list \<Rightarrow> (string \<times> 'e vs_record) list" where
  "prepare_records encode chunks =
     map (\<lambda>chunk. (chunk_id chunk,
                    \<lparr>vs_document = content chunk,
                     vs_metadata = clean_meta (fuse_parent (parent_map chunks) chunk),
                     vs_embedding = encode (content chunk)\<rparr>))
         (filter (\<lambda>chunk. \<not> too_long_parent chunk) chunks)"

text \<open>
  The vector database is external. Its \<^verbatim>\<open>collection.upsert\<close> validates the request before it
  writes anything: a list of ids that repeats an id is rejected with \<^verbatim>\<open>DuplicateIDError\<close>.
  Otherwise each record replaces the stored record with the same id, or is added.
\<close>

definition collection_upsert ::
  "(string \<times> 'e vs_record) list \<Rightarrow> 'e collection \<Rightarrow> py_error + 'e collection" where
  "collection_upsert batch coll =
     (if distinct (map fst batch) then Inr (fold (\<lambda>(i, r). AList.update i r) batch coll)
      else Inl DuplicateIDError)"

text \<open>
  \<^verbatim>\<open>for i in range(0, len(ids), batch_size)\<close> with \<^verbatim>\<open>batch_size = 100\<close>. The loop is not
  guarded: an exception of \<^verbatim>\<open>upsert\<close> ends it, and the batches written before stay written.
  The result is the collection afterwards and the exception, if any.
\<close>

function upsert_batches ::
  "(string \<times> 'e vs_record) list \<Rightarrow> 'e collection \<Rightarrow> 'e collection \<times> py_error option" where
  "upsert_batches records coll =
     (if records = [] then (coll, None)
      else case collection_upsert (take 100 records) coll of
             Inl e \<Rightarrow> (coll, Some e)
           | Inr coll' \<Rightarrow> upsert_batches (drop 100 records) coll')"
  by pat_completeness auto
termination
  by (relation "measure (\<lambda>(records, coll). length records)") auto

declare upsert_batches.simps [simp del]

definition add_chunks ::
  "(string \<Rightarrow> 'e) \<Rightarrow> indexable_chunk list \<Rightarrow> 'e collection \<Rightarrow> 'e collection \<times> py_error option" where
  "add_chunks encode chunks coll =
     (if chunks = [] then (coll, None)
      else let records = prepare_records encode chunks
           in if records = [] then (coll, None) else upsert_batches records coll)"

text \<open>
  Example chunks: a parent of 801 characters, a short parent, a child of the long one, a
  revision of that child and a chunk of its own.
\<close>

definition long_parent :: indexable_chunk where
  "long_parent = \<lparr>content = replicate 801 CHR ''x'', chunk_metadata = [(''page'', MInt 1)],
                  chunk_id = ''p1'', parent_id = None, is_parent = True\<rparr>"


definition child_chunk :: indexable_chunk where
  "child_chunk = \<lparr>content = ''child text'', chunk_metadata = [(''page'', MNone)],
                  chunk_id = ''k1'', parent_id = Some ''p1'', is_parent = False\<rparr>"



text \<open>A stand-in for the encoder in examples: the length of the text.\<close>

definition embed_len :: "string \<Rightarrow> nat" where
  "embed_len txt = length txt"

subsection \<open>Persisted lexical index: \<^verbatim>\<open>BM25Persistence\<close>\<close>

text \<open>
  An entry of a project's corpus is a dictionary with the keys \<^verbatim>\<open>content\<close> and \<^verbatim>\<open>metadata\<close>;
  the metadata is the dictionary that \<^verbatim>\<open>chat_stream\<close> later hands to a \<^verbatim>\<open>Document\<close>.
\<close>

record bm25_item =
  item_content :: string
  item_metadata :: doc_metadata

text \<open>
  The index object is a \<^verbatim>\<open>BM25Okapi\<close> built from the tokenised corpus; it is a function of that
  corpus, which is what the model keeps. A pickle file holds an index, a corpus snapshot, or
  bytes that \<^verbatim>\<open>pickle.load\<close> rejects (an empty or half-written file).
\<close>

datatype bm25_index = BM25Okapi "string list list"

datatype pickle_file = ModelFile bm25_index | DataFile "bm25_item list" | Unreadable

type_synonym file_system = "string \<rightharpoonup> pickle_file"

text \<open>
  External functions of the lexical index: Python's \<^verbatim>\<open>str.isalnum\<close> on one character, the
  \<^verbatim>\<open>jieba\<close> tokenizer, the rendering \<^verbatim>\<open>str(hash(content))\<close> and the library's
  \<^verbatim>\<open>BM25Okapi.get_top_n\<close>.
\<close>

record bm25_env =
  isalnum :: "char \<Rightarrow> bool"
  tokenize :: "string \<Rightarrow> string list"
  hash_repr :: "string \<Rightarrow> string"
  get_top_n :: "bm25_index \<Rightarrow> string list \<Rightarrow> bm25_item list \<Rightarrow> nat \<Rightarrow> py_error + bm25_item list"

definition index_dir :: string where
  "index_dir = ''bm25_indices''"

text \<open>\<^verbatim>\<open>str.strip()\<close> on a name in which the only white space left is the blank.\<close>

definition strip_blanks :: "string \<Rightarrow> string" where
  "strip_blanks s =
     rev (dropWhile (\<lambda>c. c = CHR '' '') (rev (dropWhile (\<lambda>c. c = CHR '' '') s)))"

definition safe_name :: "bm25_env \<Rightarrow> string \<Rightarrow> string" where
  "safe_name env project_name =
     strip_blanks (filter (\<lambda>c. isalnum env c \<or> c \<in> {CHR '' '', CHR ''_'', CHR ''-''}) project_name)"

definition get_file_paths :: "bm25_env \<Rightarrow> string \<Rightarrow> string \<times> string" where
  "get_file_paths env project_name =
     (let base_path = index_dir @ ''/'' @ safe_name env project_name
      in (base_path @ ''_model.pkl'', base_path @ ''_data.pkl''))"

text \<open>The key under which \<^verbatim>\<open>data_map\<close> holds an entry: its chunk id, or a content hash.\<close>

definition item_key :: "bm25_env \<Rightarrow> bm25_item \<Rightarrow> string" where
  "item_key env item =
     (if truthy (md_chunk_id (item_metadata item)) then the (md_chunk_id (item_metadata item))
      else ''hash_'' @ hash_repr env (item_content item))"

text \<open>Both loops over \<^verbatim>\<open>existing_data\<close> and \<^verbatim>\<open>new_chunks\<close>: \<^verbatim>\<open>data_map[key] = item\<close>.\<close>

definition load_items ::
  "bm25_env \<Rightarrow> bm25_item list \<Rightarrow> (string \<times> bm25_item) list \<Rightarrow> (string \<times> bm25_item) list" where
  "load_items env items data_map = fold (\<lambda>item. AList.update (item_key env item) item) items data_map"

text \<open>Step 1: the existing corpus, empty when the file is absent or cannot be loaded.\<close>

definition load_existing :: "file_system \<Rightarrow> string \<Rightarrow> bm25_item list" where
  "load_existing fs data_path =
     (case fs data_path of Some (DataFile items) \<Rightarrow> items | _ \<Rightarrow> [])"

definition merged_corpus :: "bm25_env \<Rightarrow> bm25_item list \<Rightarrow> bm25_item list \<Rightarrow> bm25_item list" where
  "merged_corpus env existing_data new_chunks =
     map snd (load_items env new_chunks (load_items env existing_data []))"

text \<open>
  Step 4 as file-system operations. \<^verbatim>\<open>open(path, 'wb')\<close> truncates the file; the dump then
  fills it. \<open>Rename\<close> is the operation a write-to-temporary scheme would end with.
\<close>

datatype fs_op = OpenTruncate string | Dump string pickle_file | Rename string string

fun apply_op :: "fs_op \<Rightarrow> file_system \<Rightarrow> file_system" where
  "apply_op (OpenTruncate path) fs = fs(path \<mapsto> Unreadable)"
| "apply_op (Dump path file) fs = fs(path \<mapsto> file)"
| "apply_op (Rename src dst) fs = (fs(dst := fs src))(src := None)"

definition run_ops :: "fs_op list \<Rightarrow> file_system \<Rightarrow> file_system" where
  "run_ops ops fs = fold apply_op ops fs"

text \<open>The file-system operations one call of \<^verbatim>\<open>update_project_index\<close> performs, in order.\<close>

definition update_ops :: "bm25_env \<Rightarrow> file_system \<Rightarrow> string \<Rightarrow> bm25_item list \<Rightarrow> fs_op list" where
  "update_ops env fs project_name new_chunks =
     (case get_file_paths env project_name of (model_path, data_path) \<Rightarrow>
        let full_data = merged_corpus env (load_existing fs data_path) new_chunks
        in if full_data = [] then []
           else [OpenTruncate model_path,
                 Dump model_path (ModelFile (BM25Okapi (map (\<lambda>doc. tokenize env (item_content doc)) full_data))),
                 OpenTruncate data_path,
                 Dump data_path (DataFile full_data)])"

definition update_project_index ::
  "bm25_env \<Rightarrow> string \<Rightarrow> bm25_item list \<Rightarrow> file_system \<Rightarrow> file_system" where
  "update_project_index env project_name new_chunks fs =
     run_ops (update_ops env fs project_name new_chunks) fs"

text \<open>
  The states of the file system a concurrent reader can find while the update runs: the state
  before, and the state after each operation.
\<close>

fun observable_states :: "fs_op list \<Rightarrow> file_system \<Rightarrow> file_system list" where
  "observable_states [] fs = [fs]"
| "observable_states (op # ops) fs = fs # observable_states ops (apply_op op fs)"

text \<open>
  \<^verbatim>\<open>search\<close>: one project after the other; a project without model file is skipped, and any
  exception while loading or ranking is caught and that project contributes nothing.
\<close>

definition all_projects :: string where
  "all_projects = [CHR 0x80, CHR 0x81, CHR 0x82, CHR 0x83]"

definition search_project ::
  "bm25_env \<Rightarrow> file_system \<Rightarrow> string list \<Rightarrow> string \<Rightarrow> nat \<Rightarrow> bm25_item list" where
  "search_project env fs tokenized_query proj top_k =
     (if proj = all_projects then []
      else case get_file_paths env proj of (model_path, data_path) \<Rightarrow>
        (case fs model_path of
           None \<Rightarrow> []
         | Some (ModelFile bm25) \<Rightarrow>
             (case fs data_path of
                Some (DataFile corpus_data) \<Rightarrow>
                  (case get_top_n env bm25 tokenized_query corpus_data top_k of
                     Inr top_n \<Rightarrow> top_n
                   | Inl e \<Rightarrow> [])
              | _ \<Rightarrow> [])
         | Some _ \<Rightarrow> []))"

definition bm25_search ::
  "bm25_env \<Rightarrow> file_system \<Rightarrow> string \<Rightarrow> string list \<Rightarrow> nat \<Rightarrow> bm25_item list" where
  "bm25_search env fs query projects top_k =
     concat (map (\<lambda>proj. search_project env fs (tokenize env query) proj top_k) projects)"

text \<open>
  A persisted pair is fully materialised when both files are absent, or the index file holds
  the index built from exactly the corpus the data file holds.
\<close>

definition index_consistent :: "bm25_env \<Rightarrow> file_system \<Rightarrow> string \<Rightarrow> bool" where
  "index_consistent env fs project_name =
     (case get_file_paths env project_name of (model_path, data_path) \<Rightarrow>
        (case (fs model_path, fs data_path) of
           (None, None) \<Rightarrow> True
         | (Some (ModelFile (BM25Okapi tokenized_corpus)), Some (DataFile corpus_data)) \<Rightarrow>
             tokenized_corpus = map (\<lambda>doc. tokenize env (item_content doc)) corpus_data
         | _ \<Rightarrow> False))"

fun is_rename :: "fs_op \<Rightarrow> bool" where
  "is_rename (Rename src dst) = True"
| "is_rename other = False"

fun written_path :: "fs_op \<Rightarrow> string" where
  "written_path (OpenTruncate path) = path"
| "written_path (Dump path file) = path"
| "written_path (Rename src dst) = dst"

text \<open>
  An example environment: ASCII letters and digits are alphanumeric, a text is one token, the
  hash rendering of a text is the text, and \<^verbatim>\<open>get_top_n\<close> checks that corpus and index have the
  same size (the library asserts it) and returns the first documents.
\<close>

definition example_env :: bm25_env where
  "example_env =
     \<lparr>isalnum = (\<lambda>c. c \<in> set ''abcdefghijklmnopqrstuvwxyzABCDEFGHIJKLMNOPQRSTUVWXYZ0123456789''),
      tokenize = (\<lambda>txt. [txt]),
      hash_repr = (\<lambda>txt. txt),
      get_top_n = (\<lambda>bm25 tokens docs n.
         case bm25 of BM25Okapi corpus \<Rightarrow>
           if length corpus \<noteq> length docs then Inl AssertionError else Inr (take n docs))\<rparr>"

definition item_a :: bm25_item where
  "item_a = \<lparr>item_content = ''excavators: 4'',
              item_metadata = \<lparr>md_chunk_id = Some ''c1'', md_source_file = Some ''a.pdf'',
                 md_source_method = None, md_project_name = Some ''P1'', md_category = None,
                 md_type = None, md_page = None, md_score = None\<rparr>\<rparr>"


definition item_b :: bm25_item where
  "item_b = \<lparr>item_content = ''dump trucks: 10'',
              item_metadata = \<lparr>md_chunk_id = Some ''c2'', md_source_file = Some ''b.pdf'',
                 md_source_method = None, md_project_name = Some ''P1'', md_category = None,
                 md_type = None, md_page = None, md_score = None\<rparr>\<rparr>"

text \<open>The index directory after project \<open>P1\<close> was first indexed with \<open>item_a\<close> alone.\<close>

definition fs_one :: file_system where
  "fs_one = [''bm25_indices/P1_model.pkl'' \<mapsto> ModelFile (BM25Okapi [[''excavators: 4'']]),
            ''bm25_indices/P1_data.pkl'' \<mapsto> DataFile [item_a]]"

subsection \<open>Chain graph: \<^verbatim>\<open>GraphManager\<close>\<close>

text \<open>
  The graph database is external; the model keeps what the two Cypher statements of
  \<^verbatim>\<open>GraphManager\<close> read and write: the \<^verbatim>\<open>Chunk\<close> nodes with their properties, in creation order,
  and the \<^verbatim>\<open>NEXT\<close> relationships as pairs of chunk ids. \<^verbatim>\<open>MERGE\<close> creates a node or
  relationship only when none matches, so ids and pairs identify them.
\<close>

record chunk_node =
  node_id :: string
  node_text :: string
  node_page :: string
  node_index :: nat

record graph_db =
  documents :: "(string \<times> string) list"
  chunk_nodes :: "chunk_node list"
  contains_edges :: "((string \<times> string) \<times> string) list"
  next_edges :: "(string \<times> string) list"

definition empty_graph :: graph_db where
  "empty_graph = \<lparr>documents = [], chunk_nodes = [], contains_edges = [], next_edges = []\<rparr>"

text \<open>An element of the list of chunks handed to \<^verbatim>\<open>create_document_structure\<close>.\<close>

record chain_input =
  ci_content :: string
  ci_page :: string

text \<open>\<^verbatim>\<open>MERGE (d:Document {name: $filename, project: $project})\<close>\<close>

definition merge_document :: "string \<Rightarrow> string \<Rightarrow> graph_db \<Rightarrow> graph_db" where
  "merge_document filename project g =
     (if (filename, project) \<in> set (documents g) then g
      else g\<lparr>documents := documents g @ [(filename, project)]\<rparr>)"

text \<open>
  \<^verbatim>\<open>MERGE (c:Chunk {id: $chunk_id}) SET c.text = $text, c.page = $page, c.index = $index\<close>:
  the properties of an existing node with that id are overwritten in place.
\<close>

definition merge_chunk :: "chunk_node \<Rightarrow> chunk_node list \<Rightarrow> chunk_node list" where
  "merge_chunk n nodes =
     (if node_id n \<in> node_id ` set nodes
      then map (\<lambda>m. if node_id m = node_id n then n else m) nodes
      else nodes @ [n])"

text \<open>
  The chunk statement starts with \<^verbatim>\<open>MATCH (d:Document {name: $filename})\<close>: it runs once for
  every document node of that name, and does nothing when there is none. It ends with
  \<^verbatim>\<open>MERGE (d)-[:CONTAINS]->(c)\<close>.
\<close>

definition merge_contains :: "string \<Rightarrow> string \<Rightarrow> graph_db \<Rightarrow> ((string \<times> string) \<times> string) list" where
  "merge_contains filename cid g =
     fold (\<lambda>d es. if (d, cid) \<in> set es then es else es @ [(d, cid)])
          (filter (\<lambda>d. fst d = filename) (documents g)) (contains_edges g)"

definition run_query_chunk :: "string \<Rightarrow> chunk_node \<Rightarrow> graph_db \<Rightarrow> graph_db" where
  "run_query_chunk filename n g =
     (if filter (\<lambda>d. fst d = filename) (documents g) = [] then g
      else g\<lparr>chunk_nodes := merge_chunk n (chunk_nodes g),
             contains_edges := merge_contains filename (node_id n) g\<rparr>)"

text \<open>
  \<^verbatim>\<open>MATCH (prev:Chunk {id: $prev_id}), (curr:Chunk {id: $curr_id}) MERGE (prev)-[:NEXT]->(curr)\<close>
\<close>

definition run_query_link :: "string \<Rightarrow> string \<Rightarrow> graph_db \<Rightarrow> graph_db" where
  "run_query_link prev_id curr_id g =
     (if prev_id \<in> node_id ` set (chunk_nodes g) \<and> curr_id \<in> node_id ` set (chunk_nodes g)
         \<and> (prev_id, curr_id) \<notin> set (next_edges g)
      then g\<lparr>next_edges := next_edges g @ [(prev_id, curr_id)]\<rparr>
      else g)"

text \<open>
  The loop of \<^verbatim>\<open>_create_chain_tx\<close>. \<open>chunk_uuid filename i\<close> stands for
  \<^verbatim>\<open>str(uuid.uuid5(uuid.NAMESPACE_DNS, f"{filename}_{i}"))\<close>.
\<close>

fun create_chain_loop ::
  "(string \<Rightarrow> nat \<Rightarrow> string) \<Rightarrow> string \<Rightarrow> nat \<Rightarrow> string option \<Rightarrow> chain_input list
   \<Rightarrow> graph_db \<Rightarrow> graph_db" where
  "create_chain_loop chunk_uuid filename i prev_chunk_id [] g = g"
| "create_chain_loop chunk_uuid filename i prev_chunk_id (chunk_text # rest) g =
     (let cid = chunk_uuid filename i;
          g1 = run_query_chunk filename
                 \<lparr>node_id = cid, node_text = ci_content chunk_text,
                  node_page = ci_page chunk_text, node_index = i\<rparr> g;
          g2 = (if truthy prev_chunk_id then run_query_link (the prev_chunk_id) cid g1 else g1)
      in create_chain_loop chunk_uuid filename (Suc i) (Some cid) rest g2)"

definition create_document_structure ::
  "(string \<Rightarrow> nat \<Rightarrow> string) \<Rightarrow> string \<Rightarrow> string \<Rightarrow> chain_input list \<Rightarrow> graph_db \<Rightarrow> graph_db" where
  "create_document_structure chunk_uuid filename project chunks g =
     create_chain_loop chunk_uuid filename 0 None chunks (merge_document filename project g)"

text \<open>
  The variable-length patterns \<^verbatim>\<open>(target)-[:NEXT*1..w]->(next)\<close> and
  \<^verbatim>\<open>(prev)-[:NEXT*1..w]->(target)\<close>: one result per path of one to \<open>w\<close> relationships in
  which no relationship occurs twice; the result is the id of the far end of the path.
\<close>

fun expand_next :: "(string \<times> string) list \<Rightarrow> nat \<Rightarrow> (string \<times> string) list \<Rightarrow> string \<Rightarrow> string list" where
  "expand_next es 0 used x = []"
| "expand_next es (Suc k) used x =
     concat (map (\<lambda>e. snd e # expand_next es k (e # used) (snd e))
                 (filter (\<lambda>e. fst e = x \<and> e \<notin> set used) es))"

fun expand_prev :: "(string \<times> string) list \<Rightarrow> nat \<Rightarrow> (string \<times> string) list \<Rightarrow> string \<Rightarrow> string list" where
  "expand_prev es 0 used x = []"
| "expand_prev es (Suc k) used x =
     concat (map (\<lambda>e. fst e # expand_prev es k (e # used) (fst e))
                 (filter (\<lambda>e. snd e = x \<and> e \<notin> set used) es))"

text \<open>The nodes bound to a pattern variable: the chunk nodes with the ids the paths end in.\<close>

definition nodes_with_ids :: "graph_db \<Rightarrow> string list \<Rightarrow> chunk_node list" where
  "nodes_with_ids g ids = concat (map (\<lambda>i. filter (\<lambda>n. node_id n = i) (chunk_nodes g)) ids)"

text \<open>\<^verbatim>\<open>OPTIONAL MATCH\<close>: a single null binding when the pattern has no match.\<close>

definition optional_match :: "'a list \<Rightarrow> 'a option list" where
  "optional_match xs = (if xs = [] then [None] else map Some xs)"

text \<open>One row \<^verbatim>\<open>{prev, target, next}\<close> of the result.\<close>

record context_row =
  row_prev :: "chunk_node option"
  row_target :: chunk_node
  row_next :: "chunk_node option"

text \<open>\<^verbatim>\<open>ORDER BY prev.index, next.index\<close>: ascending, nulls last.\<close>

definition null_last :: "chunk_node option \<Rightarrow> nat \<times> nat" where
  "null_last n = (case n of None \<Rightarrow> (1, 0) | Some m \<Rightarrow> (0, node_index m))"

definition order_key :: "context_row \<Rightarrow> (nat \<times> nat) \<times> (nat \<times> nat)" where
  "order_key r = (null_last (row_prev r), null_last (row_next r))"

definition get_context_window :: "graph_db \<Rightarrow> string \<Rightarrow> nat \<Rightarrow> context_row list" where
  "get_context_window g cid window_size =
     sort_key order_key
       (concat (map (\<lambda>target.
          concat (map (\<lambda>p.
             map (\<lambda>n. \<lparr>row_prev = p, row_target = target, row_next = n\<rparr>)
                 (optional_match (nodes_with_ids g
                    (expand_next (next_edges g) window_size [] (node_id target)))))
             (optional_match (nodes_with_ids g
                (expand_prev (next_edges g) window_size [] (node_id target))))))
          (filter (\<lambda>n. node_id n = cid) (chunk_nodes g))))"

text \<open>An example id function (file name, underscore, \<open>i\<close> strokes) and a chain of four chunks.\<close>

definition example_uuid :: "string \<Rightarrow> nat \<Rightarrow> string" where
  "example_uuid filename i = filename @ ''_'' @ replicate i CHR ''|''"

definition chain4 :: graph_db where
  "chain4 = create_document_structure example_uuid ''doc'' ''P1''
              [\<lparr>ci_content = ''t0'', ci_page = ''1''\<rparr>, \<lparr>ci_content = ''t1'', ci_page = ''1''\<rparr>,
               \<lparr>ci_content = ''t2'', ci_page = ''2''\<rparr>, \<lparr>ci_content = ''t3'', ci_page = ''2''\<rparr>]
              empty_graph"



subsection \<open>Query lifecycle: \<^verbatim>\<open>DeepSeekRAGService.chat_stream\<close>\<close>

text \<open>
  \<^verbatim>\<open>filter_config\<close>: a missing key is \<open>None\<close>; the project scope is a string or a list of
  strings.
\<close>

datatype project_scope = ScopeNone | ScopeStr string | ScopeList "string list"

record filter_config =
  fc_top_k :: "nat option"
  fc_project :: project_scope
  fc_type :: "string option"
  fc_files :: "string list option"

definition all_types :: string where
  "all_types = [CHR 0x80, CHR 0x81, CHR 0x84, CHR 0x85]"

text \<open>The configuration built for a caller that passes the old parameters.\<close>

definition legacy_config :: "nat \<Rightarrow> project_scope \<Rightarrow> filter_config" where
  "legacy_config top_k project_filter =
     \<lparr>fc_top_k = Some top_k,
      fc_project = (case project_filter of
                      ScopeNone \<Rightarrow> ScopeStr all_projects
                    | ScopeStr s \<Rightarrow> if s = [] then ScopeStr all_projects else ScopeStr s
                    | ScopeList l \<Rightarrow> if l = [] then ScopeStr all_projects else ScopeList l),
      fc_type = Some all_types,
      fc_files = Some []\<rparr>"

definition final_top_k :: "filter_config \<Rightarrow> nat" where
  "final_top_k cfg = (case fc_top_k cfg of Some k \<Rightarrow> k | None \<Rightarrow> 6)"

text \<open>The metadata filter handed to the vector store (Chroma \<^verbatim>\<open>where\<close> syntax).\<close>

datatype where_clause = In string "string list" | Eq string string | And "where_clause list"

text \<open>\<^verbatim>\<open>if project_scope and project_scope != "..."\<close>, then the two \<^verbatim>\<open>isinstance\<close> branches.\<close>

definition project_conditions :: "project_scope \<Rightarrow> where_clause list" where
  "project_conditions project_scope =
     (case project_scope of
        ScopeNone \<Rightarrow> []
      | ScopeList l \<Rightarrow> if l \<noteq> [] then [In ''project_name'' l] else []
      | ScopeStr s \<Rightarrow> if s \<noteq> [] \<and> s \<noteq> all_projects then [Eq ''project_name'' s] else [])"

definition type_conditions :: "string option \<Rightarrow> where_clause list" where
  "type_conditions type_scope =
     (case type_scope of
        Some t \<Rightarrow> if t \<noteq> [] \<and> t \<noteq> all_types then [Eq ''category'' t] else []
      | None \<Rightarrow> [])"

definition build_conditions :: "filter_config \<Rightarrow> where_clause list" where
  "build_conditions cfg =
     (let conditions = project_conditions (fc_project cfg) @ type_conditions (fc_type cfg)
      in case fc_files cfg of
           Some files_scope \<Rightarrow>
             if files_scope \<noteq> [] then [In ''source_file'' files_scope] else conditions
         | None \<Rightarrow> conditions)"

definition build_filter :: "filter_config \<Rightarrow> where_clause option" where
  "build_filter cfg =
     (let conditions = build_conditions cfg
      in if length conditions > 1 then Some (And conditions)
         else if length conditions = 1 then Some (hd conditions)
         else None)"

text \<open>
  What it means for a document to satisfy a filter (the vector database evaluates it; the
  model needs it to say that a backend honours the filter it is given).
\<close>

definition md_field :: "string \<Rightarrow> doc_metadata \<Rightarrow> string option" where
  "md_field name md =
     (if name = ''source_file'' then md_source_file md
      else if name = ''project_name'' then md_project_name md
      else if name = ''category'' then md_category md
      else if name = ''chunk_id'' then md_chunk_id md
      else if name = ''type'' then md_type md
      else if name = ''page'' then md_page md
      else if name = ''source_method'' then md_source_method md
      else None)"

fun satisfies :: "where_clause \<Rightarrow> document \<Rightarrow> bool" where
  "satisfies (In name vals) d = (case md_field name (metadata d) of Some v \<Rightarrow> v \<in> set vals | None \<Rightarrow> False)"
| "satisfies (Eq name val) d = (md_field name (metadata d) = Some val)"
| "satisfies (And clauses) d = list_all (\<lambda>c. satisfies c d) clauses"

text \<open>Events of the progress stream. A status event carries a message, here its kind.\<close>

datatype status_msg =
  OptimizingQuery | Searching string | ExpandingGraph | Reranking nat | StartingPandas
  | WriterStatus string

datatype event =
  Status status_msg
  | Sources "document list"
  | Text string
  | Toc "string list"
  | File string string

text \<open>
  The writer workshop \<^verbatim>\<open>_run_writer_agent_stream\<close> is an external collaborator; of its
  stream the model keeps that it consists of text, status, outline and file events.
\<close>

datatype writer_event = WText string | WStatus string | WToc "string list" | WFile string string

fun of_writer_event :: "writer_event \<Rightarrow> event" where
  "of_writer_event (WText t) = Text t"
| "of_writer_event (WStatus s) = Status (WriterStatus s)"
| "of_writer_event (WToc toc) = Toc toc"
| "of_writer_event (WFile path name) = File path name"

text \<open>
  The context handed to the language model: the fixed sentence announcing an answer from
  general knowledge, or the numbered citations of the final documents.
\<close>

datatype prompt_context = GeneralKnowledgeDisclaimer | Citations "document list"

text \<open>
  The components of the service. A component that failed to initialise is \<open>None\<close>. A call that
  raises returns \<open>Inl\<close>. The language model's stream is the list of chunks it yields and the
  exception that ends it, if any. The module \<^verbatim>\<open>generation/reranker.py\<close> that would provide the
  reranker is not part of the repository, so \<^verbatim>\<open>self.reranker\<close> is \<^verbatim>\<open>None\<close> in the service as
  shipped; the component is kept as a parameter because \<^verbatim>\<open>chat_stream\<close> has the branch.
\<close>

record service =
  rewrite_llm :: "string \<Rightarrow> py_error + string"
  vector_store :: "(where_clause option \<Rightarrow> nat \<Rightarrow> string \<Rightarrow> py_error + document list) option"
  bm25_manager :: "(string \<Rightarrow> string list \<Rightarrow> nat \<Rightarrow> py_error + bm25_item list) option"
  graph_manager :: "(string \<Rightarrow> nat \<Rightarrow> py_error + context_row list) option"
  reranker :: "(string \<Rightarrow> document list \<Rightarrow> nat \<Rightarrow> py_error + document list) option"
  pandas_agent :: "string \<Rightarrow> string option \<Rightarrow> string \<Rightarrow> py_error + string"
  llm_stream :: "(string \<times> string) list \<Rightarrow> prompt_context \<Rightarrow> string \<Rightarrow> string list \<times> py_error option"
  writer_agent :: "string \<Rightarrow> writer_event list"

text \<open>Section 1: writing intent. \<^verbatim>\<open>wk in query\<close> is substring search.\<close>

fun contains :: "string \<Rightarrow> string \<Rightarrow> bool" where
  "contains sub [] = (sub = [])"
| "contains sub (c # cs) = (take (length sub) (c # cs) = sub \<or> contains sub cs)"

definition writing_keywords :: "string list" where
  "writing_keywords =
     [[CHR 0x86, CHR 0x87], [CHR 0x88, CHR 0x89], [CHR 0x87, CHR 0x8A, CHR 0x8B],
      [CHR 0x8C, CHR 0x8D], [CHR 0x8E, CHR 0x8F], [CHR 0x90, CHR 0x91]]"

definition context_keywords :: "string list" where
  "context_keywords =
     [[CHR 0x92, CHR 0x93], [CHR 0x94, CHR 0x95], [CHR 0x96, CHR 0x97], [CHR 0x98, CHR 0x8C]]"

definition writing_intent :: "string \<Rightarrow> bool" where
  "writing_intent query =
     (list_ex (\<lambda>wk. contains wk query) writing_keywords
      \<and> list_ex (\<lambda>ck. contains ck query) context_keywords)"

text \<open>Section 2: \<^verbatim>\<open>rewrite_query\<close> returns the query itself when the model call fails.\<close>

definition rewrite_query :: "service \<Rightarrow> string \<Rightarrow> string" where
  "rewrite_query svc query = (case rewrite_llm svc query of Inr q \<Rightarrow> q | Inl e \<Rightarrow> query)"

text \<open>Section 3.2: vector recall with \<^verbatim>\<open>k = final_top_k * 5\<close>; an exception leaves the list empty.\<close>

definition vector_recall :: "service \<Rightarrow> string \<Rightarrow> filter_config \<Rightarrow> document list" where
  "vector_recall svc optimized_query cfg =
     (case vector_store svc of
        None \<Rightarrow> []
      | Some retrieve \<Rightarrow>
          (case retrieve (build_filter cfg) (final_top_k cfg * 5) optimized_query of
             Inr docs \<Rightarrow> docs
           | Inl e \<Rightarrow> []))"

text \<open>
  Section 3.3: lexical recall, by project only, with the original query and \<^verbatim>\<open>top_k=5\<close>.
\<close>

definition bm25_target :: "project_scope \<Rightarrow> string list option" where
  "bm25_target scope =
     (case scope of
        ScopeNone \<Rightarrow> None
      | ScopeStr s \<Rightarrow> if s \<noteq> [] \<and> s \<noteq> all_projects then Some [s] else None
      | ScopeList l \<Rightarrow> if l \<noteq> [] then Some l else None)"

definition item_document :: "bm25_item \<Rightarrow> document" where
  "item_document item = \<lparr>page_content = item_content item, metadata = item_metadata item\<rparr>"

definition lexical_recall :: "service \<Rightarrow> string \<Rightarrow> filter_config \<Rightarrow> document list" where
  "lexical_recall svc query cfg =
     (case bm25_manager svc of
        None \<Rightarrow> []
      | Some search \<Rightarrow>
          (case bm25_target (fc_project cfg) of
             None \<Rightarrow> []
           | Some target \<Rightarrow>
               (case search query target 5 of
                  Inr raw \<Rightarrow> map item_document raw
                | Inl e \<Rightarrow> [])))"

text \<open>
  Section 4: graph expansion of the first five fused documents. \<open>seen_graph_ids\<close> starts as a
  copy of \<open>unique_ids\<close>. The state of the three nested loops is the pair of \<open>expanded_docs\<close>
  and \<open>seen_graph_ids\<close>.
\<close>

definition graph_prefix :: string where
  "graph_prefix = [CHR ''['', CHR 0x99, CHR 0x9A, CHR 0x9B, CHR 0x9C, CHR '']'', CHR '' '']"

definition graph_document :: "chunk_node \<Rightarrow> document" where
  "graph_document node =
     \<lparr>page_content = graph_prefix @ node_text node,
      metadata = \<lparr>md_chunk_id = Some (node_id node), md_source_file = None,
                   md_source_method = Some ''Graph'', md_project_name = None,
                   md_category = None, md_type = None, md_page = None, md_score = None\<rparr>\<rparr>"

definition visit_node ::
  "chunk_node option \<Rightarrow> document list \<times> string set \<Rightarrow> document list \<times> string set" where
  "visit_node node acc =
     (case node of
        None \<Rightarrow> acc
      | Some n \<Rightarrow>
          (case acc of (expanded_docs, seen_graph_ids) \<Rightarrow>
             if node_id n \<notin> seen_graph_ids
             then (expanded_docs @ [graph_document n], insert (node_id n) seen_graph_ids)
             else acc))"

definition visit_row ::
  "context_row \<Rightarrow> document list \<times> string set \<Rightarrow> document list \<times> string set" where
  "visit_row row acc = visit_node (row_next row) (visit_node (row_prev row) acc)"

fun expand_docs ::
  "(string \<Rightarrow> nat \<Rightarrow> py_error + context_row list) \<Rightarrow> document list
   \<Rightarrow> document list \<times> string set \<Rightarrow> py_error + document list \<times> string set" where
  "expand_docs window [] acc = Inr acc"
| "expand_docs window (d # ds) acc =
     (if truthy (md_chunk_id (metadata d)) then
        (case window (the (md_chunk_id (metadata d))) 1 of
           Inl e \<Rightarrow> Inl e
         | Inr context_rows \<Rightarrow> expand_docs window ds (fold visit_row context_rows acc))
      else expand_docs window ds acc)"

text \<open>
  The result of section 4: whether the status event was emitted, and \<open>initial_docs\<close>
  afterwards. An exception anywhere in the expansion discards what was collected.
\<close>

definition graph_expand :: "service \<Rightarrow> merge_state \<Rightarrow> bool \<times> document list" where
  "graph_expand svc st =
     (case graph_manager svc of
        None \<Rightarrow> (False, initial_docs st)
      | Some window \<Rightarrow>
          if initial_docs st = [] then (False, initial_docs st)
          else (case expand_docs window (take 5 (initial_docs st)) ([], unique_ids st) of
                  Inl e \<Rightarrow> (True, initial_docs st)
                | Inr (expanded_docs, seen) \<Rightarrow> (True, initial_docs st @ expanded_docs)))"

text \<open>The candidate list after sections 3 and 4.\<close>

definition fused_candidates :: "service \<Rightarrow> string \<Rightarrow> filter_config \<Rightarrow> bool \<times> document list" where
  "fused_candidates svc query cfg =
     graph_expand svc
       (merge_dedup (lexical_recall svc query cfg)
                    (vector_recall svc (rewrite_query svc query) cfg))"

text \<open>
  Section 5: rerank or truncate. The reranker is called outside any \<^verbatim>\<open>try\<close>: its exception
  leaves the generator. The result is the status event (if any), and either the exception or
  the final documents with the context string.
\<close>

definition rerank_stage ::
  "service \<Rightarrow> string \<Rightarrow> nat \<Rightarrow> document list \<Rightarrow> event list \<times> (py_error + document list \<times> prompt_context)" where
  "rerank_stage svc optimized_query top_k docs =
     (if docs = [] then ([], Inr ([], GeneralKnowledgeDisclaimer))
      else case reranker svc of
             Some rerank \<Rightarrow>
               ([Status (Reranking (length docs))],
                case rerank optimized_query docs top_k of
                  Inl e \<Rightarrow> Inl e
                | Inr final_docs \<Rightarrow> Inr (final_docs, Citations final_docs))
           | None \<Rightarrow> ([], Inr (take top_k docs, Citations (take top_k docs))))"

text \<open>Section 6: \<^verbatim>\<open>_detect_excel_task\<close>, a vote over (file path, sheet) pairs.\<close>

definition ascii_lower :: "char \<Rightarrow> char" where
  "ascii_lower c =
     (case map_of (zip ''ABCDEFGHIJKLMNOPQRSTUVWXYZ'' ''abcdefghijklmnopqrstuvwxyz'') c of
        Some l \<Rightarrow> l | None \<Rightarrow> c)"

definition ends_with :: "string \<Rightarrow> string \<Rightarrow> bool" where
  "ends_with suffix s =
     (length suffix \<le> length s \<and> drop (length s - length suffix) s = suffix)"

definition is_excel_hit :: "document \<Rightarrow> bool" where
  "is_excel_hit doc =
     (let src = (case md_source_file (metadata doc) of Some s \<Rightarrow> s | None \<Rightarrow> [])
      in (ends_with ''.xlsx'' (map ascii_lower src) \<or> ends_with ''.xls'' (map ascii_lower src))
         \<and> md_type (metadata doc) \<in> {Some ''table'', Some ''summary'', Some ''sheet''})"

definition data_repo_dir :: string where
  "data_repo_dir = ''data_repository''"

text \<open>
  \<^verbatim>\<open>os.path.join\<close> (POSIX): a component that starts with the separator replaces what was
  joined so far; otherwise it is appended, after a separator unless the path so far is empty
  or ends with one.
\<close>

definition join_component :: "string \<Rightarrow> string \<Rightarrow> string" where
  "join_component b path =
     (if take 1 b = ''/'' then b
      else if path = [] \<or> last path = CHR ''/'' then path @ b
      else path @ ''/'' @ b)"

definition os_path_join :: "string \<Rightarrow> string list \<Rightarrow> string" where
  "os_path_join a ps = fold join_component ps a"

text \<open>
  The key of a vote: \<^verbatim>\<open>(os.path.join(self.data_repo_dir, project, src), meta.get("page", 0))\<close>.
  The sheet of an entry without page is the first one, here \<open>None\<close>.
\<close>

definition excel_key :: "document \<Rightarrow> string \<times> string option" where
  "excel_key doc =
     (os_path_join data_repo_dir
        [case md_project_name (metadata doc) of Some p \<Rightarrow> p | None \<Rightarrow> [],
         case md_source_file (metadata doc) of Some s \<Rightarrow> s | None \<Rightarrow> []],
      md_page (metadata doc))"

definition excel_votes :: "document list \<Rightarrow> ((string \<times> string option) \<times> nat) list" where
  "excel_votes docs =
     fold (\<lambda>doc votes.
             if is_excel_hit doc
             then AList.update (excel_key doc)
                    ((case map_of votes (excel_key doc) of Some n \<Rightarrow> n | None \<Rightarrow> 0) + 1) votes
             else votes)
          docs []"

text \<open>\<^verbatim>\<open>max(excel_votes.items(), key=lambda x: x[1])[0]\<close>: the first entry with the most votes.\<close>

fun first_max :: "('k \<times> nat) \<Rightarrow> ('k \<times> nat) list \<Rightarrow> 'k \<times> nat" where
  "first_max best [] = best"
| "first_max best (x # xs) = first_max (if snd x > snd best then x else best) xs"

definition detect_excel_task :: "document list \<Rightarrow> (string \<times> string option) option" where
  "detect_excel_task docs =
     (case excel_votes docs of
        [] \<Rightarrow> None
      | v # vs \<Rightarrow> Some (fst (first_max v vs)))"

text \<open>
  Section 7: the answer stream; an exception of the model becomes a last text event. The
  wording of this notice and of the notice of a failed Pandas agent is abbreviated (the
  source puts the message of the exception after a fixed sentence).
\<close>

definition llm_error_text :: "py_error \<Rightarrow> string" where
  "llm_error_text e = ''LLM call error''"

definition generation_events ::
  "service \<Rightarrow> (string \<times> string) list \<Rightarrow> prompt_context \<Rightarrow> string \<Rightarrow> event list" where
  "generation_events svc history ctx optimized_query =
     (case llm_stream svc (drop (length history - 4) history) ctx optimized_query of
        (chunks, failure) \<Rightarrow>
          map Text chunks @ (case failure of None \<Rightarrow> [] | Some e \<Rightarrow> [Text (llm_error_text e)]))"

definition pandas_failure_text :: "py_error \<Rightarrow> string" where
  "pandas_failure_text e = ''Pandas Agent failed, falling back to the general answer''"

text \<open>Sections 6 and 7 together: what the generator yields once the final documents are known.\<close>

definition answer_events ::
  "service \<Rightarrow> (string \<times> string) list \<Rightarrow> string \<Rightarrow> document list \<Rightarrow> prompt_context \<Rightarrow> event list" where
  "answer_events svc history optimized_query final_docs ctx =
     (case detect_excel_task final_docs of
        Some (file_path, sheet_name) \<Rightarrow>
          Status StartingPandas #
          (case pandas_agent svc file_path sheet_name optimized_query of
             Inr agent_result \<Rightarrow> [Text agent_result, Sources (take 3 final_docs)]
           | Inl e \<Rightarrow>
               Text (pandas_failure_text e) # Sources final_docs
                 # generation_events svc history ctx optimized_query)
      | None \<Rightarrow> Sources final_docs # generation_events svc history ctx optimized_query)"

text \<open>The generator as a whole: the events it yields and the exception that ends it, if any.\<close>

record stream_result =
  events :: "event list"
  raised :: "py_error option"

definition chat_stream ::
  "service \<Rightarrow> string \<Rightarrow> (string \<times> string) list \<Rightarrow> filter_config \<Rightarrow> stream_result" where
  "chat_stream svc query history cfg =
     (if writing_intent query
      then \<lparr>events = map of_writer_event (writer_agent svc query), raised = None\<rparr>
      else
        let optimized_query = rewrite_query svc query;
            (graph_status, docs) = fused_candidates svc query cfg;
            (rerank_status, outcome) = rerank_stage svc optimized_query (final_top_k cfg) docs;
            head = [Status OptimizingQuery, Status (Searching optimized_query)]
                   @ (if graph_status then [Status ExpandingGraph] else [])
                   @ rerank_status
        in case outcome of
             Inl e \<Rightarrow> \<lparr>events = head, raised = Some e\<rparr>
           | Inr (final_docs, ctx) \<Rightarrow>
               \<lparr>events = head @ answer_events svc history optimized_query final_docs ctx,
                raised = None\<rparr>)"

text \<open>
  The retrieval half of the generator on its own (sections 2 to 5): the final documents with
  the context, or the exception of the reranker.
\<close>

definition search_outcome ::
  "service \<Rightarrow> string \<Rightarrow> filter_config \<Rightarrow> py_error + document list \<times> prompt_context" where
  "search_outcome svc query cfg =
     snd (rerank_stage svc (rewrite_query svc query) (final_top_k cfg)
            (snd (fused_candidates svc query cfg)))"

text \<open>Properties of an event stream and of a candidate list that the claims speak about.\<close>

fun is_sources :: "event \<Rightarrow> bool" where
  "is_sources (Sources docs) = True"
| "is_sources other = False"

fun is_text :: "event \<Rightarrow> bool" where
  "is_text (Text t) = True"
| "is_text other = False"

fun is_status :: "event \<Rightarrow> bool" where
  "is_status (Status s) = True"
| "is_status other = False"

text \<open>No text event comes before a sources event.\<close>

fun no_text_before_sources :: "event list \<Rightarrow> bool" where
  "no_text_before_sources [] = True"
| "no_text_before_sources (e # es) =
     (if is_text e then \<not> list_ex is_sources es else no_text_before_sources es)"

definition is_graph_sourced :: "document \<Rightarrow> bool" where
  "is_graph_sourced d = (md_source_method (metadata d) = Some ''Graph'')"




text \<open>
  An example deployment. The vector store returns, in stored order, the first \<open>k\<close> documents
  that satisfy the filter; the lexical index of project \<open>P1\<close> holds \<open>item_a\<close> (from a.pdf) and
  \<open>item_b\<close> (from b.pdf); the graph is the chain of four chunks; no reranker is configured.
\<close>

definition stored_vector_doc :: document where
  "stored_vector_doc =
     \<lparr>page_content = ''t1'',
      metadata = \<lparr>md_chunk_id = Some ''doc_|'', md_source_file = Some ''a.pdf'',
                   md_source_method = None, md_project_name = Some ''P1'',
                   md_category = None, md_type = None, md_page = None, md_score = None\<rparr>\<rparr>"

definition other_project_doc :: document where
  "other_project_doc =
     \<lparr>page_content = ''unrelated'',
      metadata = \<lparr>md_chunk_id = Some ''z9'', md_source_file = Some ''z.pdf'',
                   md_source_method = None, md_project_name = Some ''P2'',
                   md_category = None, md_type = None, md_page = None, md_score = None\<rparr>\<rparr>"

definition example_retrieve ::
  "document list \<Rightarrow> where_clause option \<Rightarrow> nat \<Rightarrow> string \<Rightarrow> py_error + document list" where
  "example_retrieve store flt k query =
     Inr (take k (filter (\<lambda>d. case flt of None \<Rightarrow> True | Some f \<Rightarrow> satisfies f d) store))"

definition fs_two :: file_system where
  "fs_two = [''bm25_indices/P1_model.pkl''
               \<mapsto> ModelFile (BM25Okapi [[''excavators: 4''], [''dump trucks: 10'']]),
            ''bm25_indices/P1_data.pkl'' \<mapsto> DataFile [item_a, item_b]]"

definition example_service :: service where
  "example_service =
     \<lparr>rewrite_llm = (\<lambda>q. Inr q),
      vector_store = Some (example_retrieve [other_project_doc, stored_vector_doc]),
      bm25_manager = Some (\<lambda>q projects k. Inr (bm25_search example_env fs_two q projects k)),
      graph_manager = Some (\<lambda>cid w. Inr (get_context_window chain4 cid w)),
      reranker = None,
      pandas_agent = (\<lambda>path sheet q. Inr ''42''),
      llm_stream = (\<lambda>history ctx q. ([''The answer '', ''is 4.''], None)),
      writer_agent = (\<lambda>q. [WStatus ''starting'', WText ''done''])\<rparr>"

definition files_config :: filter_config where
  "files_config = \<lparr>fc_top_k = Some 6, fc_project = ScopeStr ''P1'', fc_type = None,
                   fc_files = Some [''a.pdf'']\<rparr>"

text \<open>A deployment whose only hit is a table of an Excel workbook.\<close>

definition excel_doc :: document where
  "excel_doc =
     \<lparr>page_content = ''unit prices'',
      metadata = \<lparr>md_chunk_id = Some ''x1'', md_source_file = Some ''costs.xlsx'',
                   md_source_method = None, md_project_name = Some ''P1'',
                   md_category = None, md_type = Some ''table'', md_page = Some ''Sheet1'',
                   md_score = None\<rparr>\<rparr>"

definition excel_service :: service where
  "excel_service =
     example_service\<lparr>vector_store := Some (example_retrieve [excel_doc]),
                     bm25_manager := None, graph_manager := None\<rparr>"

text \<open>The same deployment with a Pandas agent that raises.\<close>

definition excel_failing_service :: service where
  "excel_failing_service =
     excel_service\<lparr>pandas_agent := (\<lambda>path sheet q. Inl (BackendError ''no such sheet''))\<rparr>"

definition open_config :: filter_config where
  "open_config = \<lparr>fc_top_k = Some 6, fc_project = ScopeStr all_projects, fc_type = None,
                  fc_files = None\<rparr>"

text \<open>
  Degraded deployments: the lexical index is not configured; and, in addition, the vector
  store raises on every call.
\<close>

definition no_lexical_service :: service where
  "no_lexical_service = example_service\<lparr>bm25_manager := None\<rparr>"

definition recall_down_service :: service where
  "recall_down_service =
     example_service\<lparr>bm25_manager := None,
                     vector_store := Some (\<lambda>flt k q. Inl (BackendError ''unreachable''))\<rparr>"

section \<open>Properties\<close>

subsection \<open>Hybrid score stage\<close>

lemma fold_max_Max: "fold max ss (s::real) = Max (set (s # ss))"
  by (simp only: Max.set_eq_fold)

lemma max_bm25_of_Max:
  "scores \<noteq> [] \<Longrightarrow>
   max_bm25_of scores = (if \<exists>s\<in>set scores. s \<noteq> 0 then Max (set scores) else 1)"
  unfolding max_bm25_of_def
  by (cases scores) (simp_all only: list.simps list_ex_iff fold_max_Max, simp_all)

lemma sort_by_score_desc_sorted:
  "sorted_wrt (\<lambda>a b. score a \<ge> score b) (sort_by_score_desc cs)"
proof -
  have "sorted (map (\<lambda>x. - score x) (sort_key (\<lambda>x. - score x) cs))"
    by (rule sorted_sort_key)
  then show ?thesis
    unfolding sort_by_score_desc_def by (simp add: sorted_map)
qed

lemma sort_by_score_desc_mset: "mset (sort_by_score_desc cs) = mset cs"
  unfolding sort_by_score_desc_def by simp

text \<open>
  C2 (as amended). For a non-empty batch with one raw lexical score per candidate, the hybrid
  stage returns the candidates with combined score
  \<open>vector_similarity + 0.3 * normalised\<close>, where \<open>normalised\<close> is the raw score divided by
  the batch maximum when that maximum is positive and 0 whenever the maximum is not positive
  (zero or negative); each candidate also records its raw score; the batch comes back ordered
  by combined score, descending.
\<close>

theorem apply_bm25_score_formula:
  assumes "candidates \<noteq> []" and "length scores = length candidates"
  shows "\<exists>out. apply_bm25_score scores candidates = Inr out
           \<and> mset out =
               mset (map (\<lambda>(doc, s).
                       doc\<lparr>score := score doc
                                + 0.3 * (if Max (set scores) > 0 then s / Max (set scores) else 0),
                            bm25_score := Some s\<rparr>)
                     (zip candidates scores))
           \<and> sorted_wrt (\<lambda>a b. score a \<ge> score b) out"
proof -
  from assms have ne: "scores \<noteq> []" by auto
  have norm: "bm25_norm (max_bm25_of scores) s
                = (if Max (set scores) > 0 then s / Max (set scores) else 0)"
    if "s \<in> set scores" for s
  proof (cases "\<exists>x\<in>set scores. x \<noteq> 0")
    case True
    then show ?thesis by (simp add: bm25_norm_def max_bm25_of_Max [OF ne])
  next
    case False
    then have all0: "\<forall>x\<in>set scores. x = 0" by blast
    with ne have "set scores = {0}" by (cases scores) auto
    then have "Max (set scores) = 0" by simp
    moreover from False have "max_bm25_of scores = 1" by (simp add: max_bm25_of_Max [OF ne])
    moreover have "s = 0" using all0 that by blast
    ultimately show ?thesis by (simp add: bm25_norm_def)
  qed
  have upd: "map (\<lambda>(doc, s). add_bm25 (max_bm25_of scores) doc s) (zip candidates scores)
             = map (\<lambda>(doc, s). doc\<lparr>score := score doc
                                + 0.3 * (if Max (set scores) > 0 then s / Max (set scores) else 0),
                            bm25_score := Some s\<rparr>) (zip candidates scores)"
  proof (rule map_cong [OF refl])
    fix p assume "p \<in> set (zip candidates scores)"
    then have "snd p \<in> set scores"
      by (metis prod.collapse set_zip_rightD)
    then show "(case p of (doc, s) \<Rightarrow> add_bm25 (max_bm25_of scores) doc s)
             = (case p of (doc, s) \<Rightarrow> doc\<lparr>score := score doc
                                + 0.3 * (if Max (set scores) > 0 then s / Max (set scores) else 0),
                            bm25_score := Some s\<rparr>)"
      by (cases p) (simp add: add_bm25_def norm)
  qed
  show ?thesis
    using assms
    by (simp add: apply_bm25_score_def upd sort_by_score_desc_mset sort_by_score_desc_sorted)
qed

theorem apply_bm25_score_formula_witness:
  "[cand_a, cand_b] \<noteq> [] \<and> length [2, 4 :: real] = length [cand_a, cand_b]
   \<and> (\<exists>out. apply_bm25_score [2, 4] [cand_a, cand_b] = Inr out
        \<and> mset out = {# cand_a\<lparr>score := 13/20, bm25_score := Some 2\<rparr>,
                        cand_b\<lparr>score := 7/10, bm25_score := Some 4\<rparr> #}
        \<and> sorted_wrt (\<lambda>a b. score a \<ge> score b) out)"
  using apply_bm25_score_formula [of "[cand_a, cand_b]" "[2, 4]"]
  by (simp add: cand_a_def cand_b_def)

text \<open>
  C2 as stated fails when the batch maximum is negative (the BM25 scorer gives negative scores
  on very small corpora): for the single candidate \<open>cand_a\<close> with raw score \<open>-1\<close> the code
  leaves the vector score \<open>1/2\<close> unchanged, where the stated formula gives
  \<open>1/2 + 0.3 * ((-1) / (-1)) = 4/5\<close>.
\<close>

theorem score_fusion_counterexample:
  "apply_bm25_score [-1] [cand_a] = Inr [cand_a\<lparr>bm25_score := Some (-1)\<rparr>]
   \<and> score (cand_a\<lparr>bm25_score := Some (-1)\<rparr>) = 1/2
   \<and> spec_combined [-1] (score cand_a) (-1) = 4/5"
  by (simp add: apply_bm25_score_def sort_by_score_desc_def add_bm25_def bm25_norm_def
      max_bm25_of_def spec_combined_def spec_normalized_def cand_a_def)

subsection \<open>Dictionaries as association lists\<close>

text \<open>
  Facts about a sequence of assignments \<^verbatim>\<open>d[k] = v\<close> to an insertion-ordered dictionary,
  used for the vector collection and for the lexical corpus.
\<close>

lemma map_of_fold_update:
  "map_of (fold (\<lambda>(k, v). AList.update k v) recs al) = map_of al ++ map_of (rev recs)"
proof (induction recs arbitrary: al)
  case Nil
  then show ?case by simp
next
  case (Cons p recs)
  obtain k v where p: "p = (k, v)" by (cases p)
  have "map_of (fold (\<lambda>(k, v). AList.update k v) (p # recs) al)
        = map_of (AList.update k v al) ++ map_of (rev recs)"
    by (simp add: p Cons.IH)
  also have "\<dots> = (map_of al ++ [k \<mapsto> v]) ++ map_of (rev recs)"
    by (simp add: update_conv')
  also have "\<dots> = map_of al ++ map_of (rev (p # recs))"
    by (simp add: p)
  finally show ?case .
qed








lemma map_of_rev_last:
  assumes "k \<in> fst ` set recs"
  shows "map_of (rev recs) k = Some (snd (last (filter (\<lambda>p. fst p = k) recs)))"
  using assms
proof (induction recs rule: rev_induct)
  case Nil
  then show ?case by simp
next
  case (snoc p recs)
  show ?case
  proof (cases "fst p = k")
    case True
    then show ?thesis by (cases p) auto
  next
    case False
    with snoc show ?thesis by (cases p) auto
  qed
qed

subsection \<open>Candidate fusion and de-duplication\<close>

lemma dedup_key_set_source_method [simp]: "dedup_key (set_source_method m d) = dedup_key d"
  by (simp add: dedup_key_def set_source_method_def split: option.splits)

lemma merge_step_key:
  "merge_step (origin, d) st =
     (if dedup_key d \<in> unique_ids st then st else keep_doc origin d (dedup_key d) st)"
  by (cases "md_chunk_id (metadata d)") (auto simp: merge_step_def dedup_key_def)

lemma merge_loop_append: "merge_loop (xs @ ys) st = merge_loop ys (merge_loop xs st)"
  by (induction xs arbitrary: st) simp_all

lemma keep_doc_fields:
  "unique_ids (keep_doc origin d k st) = insert k (unique_ids st)"
  "initial_docs (keep_doc origin d k st)
   = initial_docs st @ [set_source_method (if in_bm25_docs origin d st then ''BM25'' else ''Vector'') d]"
  "bm25_docs (keep_doc (Some i) d k st)
   = (bm25_docs st)[i := set_source_method ''BM25'' d]"
  "bm25_docs (keep_doc None d k st) = bm25_docs st"
  by (simp_all add: keep_doc_def Let_def in_bm25_docs_def)

text \<open>
  \<open>AList.clearjunk\<close> keeps, of the entries of an association list, the first one for each
  key. Restricted to the keys outside a set of keys already seen, it follows the loop.
\<close>

lemma clearjunk_unseen_Cons:
  "AList.clearjunk (filter (\<lambda>q. fst q \<notin> S) (p # al))
   = (if fst p \<in> S then AList.clearjunk (filter (\<lambda>q. fst q \<notin> S) al)
      else p # AList.clearjunk (filter (\<lambda>q. fst q \<notin> insert (fst p) S) al))"
proof -
  have "filter (\<lambda>(k', _). fst p \<noteq> k') (filter (\<lambda>q. fst q \<notin> S) al)
        = filter (\<lambda>q. fst q \<notin> insert (fst p) S) al"
    by (induction al) auto
  then show ?thesis by (simp add: AList.delete_eq)
qed

lemma delete_unseen:
  "AList.delete k (filter (\<lambda>q. fst q \<notin> S) al) = filter (\<lambda>q. fst q \<noteq> k \<and> fst q \<notin> S) al"
  by (induction al) auto

lemma clearjunk_unseen_append:
  "AList.clearjunk (filter (\<lambda>q. fst q \<notin> S) (xs @ ys))
   = AList.clearjunk (filter (\<lambda>q. fst q \<notin> S) xs)
     @ AList.clearjunk (filter (\<lambda>q. fst q \<notin> S \<union> fst ` set xs) ys)"
proof (induction xs arbitrary: S)
  case Nil
  then show ?case by simp
next
  case (Cons p xs)
  show ?case
  proof (cases "fst p \<in> S")
    case True
    then have "S \<union> fst ` set (p # xs) = S \<union> fst ` set xs" by auto
    with True Cons.IH [of S] show ?thesis
      by (simp only: append_Cons clearjunk_unseen_Cons if_True)
  next
    case False
    have "insert (fst p) S \<union> fst ` set xs = S \<union> fst ` set (p # xs)" by auto
    with False Cons.IH [of "insert (fst p) S"] show ?thesis
      by (simp only: append_Cons clearjunk_unseen_Cons if_False)
  qed
qed

lemma merge_loop_bm25_exact:
  assumes "bm25_docs st = P @ A" and "length P = n"
  shows "initial_docs (merge_loop (map (\<lambda>(i, d). (Some i, d)) (enumerate n A)) st)
           = initial_docs st
             @ map snd (AList.clearjunk (filter (\<lambda>q. fst q \<notin> unique_ids st)
                          (map (\<lambda>d. (dedup_key d, set_source_method ''BM25'' d)) A)))
       \<and> unique_ids (merge_loop (map (\<lambda>(i, d). (Some i, d)) (enumerate n A)) st)
           = unique_ids st \<union> dedup_key ` set A
       \<and> (\<exists>A'. bm25_docs (merge_loop (map (\<lambda>(i, d). (Some i, d)) (enumerate n A)) st) = P @ A'
                \<and> map dedup_key A' = map dedup_key A)"
  using assms
proof (induction A arbitrary: n st P)
  case Nil
  then show ?case by simp
next
  case (Cons a A)
  let ?items = "map (\<lambda>(i, d). (Some i, d)) (enumerate (Suc n) A)"
  let ?keyed = "map (\<lambda>d. (dedup_key d, set_source_method ''BM25'' d)) A"
  show ?case
  proof (cases "dedup_key a \<in> unique_ids st")
    case True
    have step: "merge_loop (map (\<lambda>(i, d). (Some i, d)) (enumerate n (a # A))) st = merge_loop ?items st"
      using True by (simp add: merge_step_key)
    from Cons.prems have "bm25_docs st = (P @ [a]) @ A" "length (P @ [a]) = Suc n" by simp_all
    from Cons.IH [OF this] obtain A' where
      IH: "initial_docs (merge_loop ?items st)
            = initial_docs st
              @ map snd (AList.clearjunk (filter (\<lambda>q. fst q \<notin> unique_ids st) ?keyed))"
        "unique_ids (merge_loop ?items st) = unique_ids st \<union> dedup_key ` set A"
        "bm25_docs (merge_loop ?items st) = (P @ [a]) @ A'"
        "map dedup_key A' = map dedup_key A"
      by blast
    have "\<exists>A''. bm25_docs (merge_loop ?items st) = P @ A''
                \<and> map dedup_key A'' = map dedup_key (a # A)"
      by (rule exI [of _ "a # A'"]) (simp add: IH)
    with IH True show ?thesis
      unfolding step by (simp add: delete_unseen insert_absorb)
  next
    case False
    let ?a' = "set_source_method ''BM25'' a"
    let ?st' = "keep_doc (Some n) a (dedup_key a) st"
    have step: "merge_loop (map (\<lambda>(i, d). (Some i, d)) (enumerate n (a # A))) st = merge_loop ?items ?st'"
      using False by (simp add: merge_step_key)
    have st': "unique_ids ?st' = insert (dedup_key a) (unique_ids st)"
      "initial_docs ?st' = initial_docs st @ [?a']"
      "bm25_docs ?st' = (P @ [?a']) @ A"
      using Cons.prems by (simp_all add: keep_doc_fields in_bm25_docs_def list_update_append)
    have "length (P @ [?a']) = Suc n" using Cons.prems by simp
    from Cons.IH [OF st'(3) this] obtain A' where
      IH: "initial_docs (merge_loop ?items ?st')
            = initial_docs ?st'
              @ map snd (AList.clearjunk (filter (\<lambda>q. fst q \<notin> unique_ids ?st') ?keyed))"
        "unique_ids (merge_loop ?items ?st') = unique_ids ?st' \<union> dedup_key ` set A"
        "bm25_docs (merge_loop ?items ?st') = (P @ [?a']) @ A'"
        "map dedup_key A' = map dedup_key A"
      by blast
    have "\<exists>A''. bm25_docs (merge_loop ?items ?st') = P @ A''
                \<and> map dedup_key A'' = map dedup_key (a # A)"
      by (rule exI [of _ "?a' # A'"]) (simp add: IH)
    with IH False show ?thesis
      unfolding step by (simp add: delete_unseen st')
  qed
qed

lemma merge_loop_vector_exact:
  assumes "dedup_key ` set (bm25_docs st) \<subseteq> unique_ids st"
  shows "initial_docs (merge_loop (map (\<lambda>d. (None, d)) B) st)
           = initial_docs st
             @ map snd (AList.clearjunk (filter (\<lambda>q. fst q \<notin> unique_ids st)
                          (map (\<lambda>d. (dedup_key d, set_source_method ''Vector'' d)) B)))
       \<and> unique_ids (merge_loop (map (\<lambda>d. (None, d)) B) st) = unique_ids st \<union> dedup_key ` set B"
  using assms
proof (induction B arbitrary: st)
  case Nil
  then show ?case by simp
next
  case (Cons v B)
  let ?keyed = "map (\<lambda>d. (dedup_key d, set_source_method ''Vector'' d)) B"
  show ?case
  proof (cases "dedup_key v \<in> unique_ids st")
    case True
    have step: "merge_loop (map (\<lambda>d. (None, d)) (v # B)) st = merge_loop (map (\<lambda>d. (None, d)) B) st"
      using True by (simp add: merge_step_key)
    from Cons.IH [OF Cons.prems] True show ?thesis
      unfolding step by (simp add: delete_unseen insert_absorb)
  next
    case False
    let ?st' = "keep_doc None v (dedup_key v) st"
    from False Cons.prems have "v \<notin> set (bm25_docs st)" by auto
    then have st': "unique_ids ?st' = insert (dedup_key v) (unique_ids st)"
      "initial_docs ?st' = initial_docs st @ [set_source_method ''Vector'' v]"
      "bm25_docs ?st' = bm25_docs st"
      by (simp_all add: keep_doc_fields in_bm25_docs_def)
    have step: "merge_loop (map (\<lambda>d. (None, d)) (v # B)) st = merge_loop (map (\<lambda>d. (None, d)) B) ?st'"
      using False by (simp add: merge_step_key)
    have "dedup_key ` set (bm25_docs ?st') \<subseteq> unique_ids ?st'"
      using Cons.prems by (auto simp: st')
    from Cons.IH [OF this] False show ?thesis
      unfolding step by (simp add: delete_unseen st')
  qed
qed

lemma merge_dedup_exact:
  "initial_docs (merge_dedup A B)
     = map snd (AList.clearjunk
         (map (\<lambda>d. (dedup_key d, set_source_method ''BM25'' d)) A
          @ map (\<lambda>d. (dedup_key d, set_source_method ''Vector'' d)) B))"
  "unique_ids (merge_dedup A B) = dedup_key ` set A \<union> dedup_key ` set B"
proof -
  let ?st0 = "\<lparr>unique_ids = {}, initial_docs = [], bm25_docs = A\<rparr>"
  let ?st1 = "merge_loop (map (\<lambda>(i, d). (Some i, d)) (enumerate 0 A)) ?st0"
  let ?LA = "map (\<lambda>d. (dedup_key d, set_source_method ''BM25'' d)) A"
  let ?LB = "map (\<lambda>d. (dedup_key d, set_source_method ''Vector'' d)) B"
  from merge_loop_bm25_exact [of ?st0 "[]" A 0] obtain A' where
    1: "initial_docs ?st1 = map snd (AList.clearjunk ?LA)"
       "unique_ids ?st1 = dedup_key ` set A"
       "bm25_docs ?st1 = A'" "map dedup_key A' = map dedup_key A"
    by auto
  from 1(4) have "dedup_key ` set A' = dedup_key ` set A" by (metis list.set_map)
  with 1 have "dedup_key ` set (bm25_docs ?st1) \<subseteq> unique_ids ?st1" by simp
  from merge_loop_vector_exact [OF this, of B]
  have 2: "initial_docs (merge_loop (map (\<lambda>d. (None, d)) B) ?st1)
           = map snd (AList.clearjunk ?LA)
             @ map snd (AList.clearjunk (filter (\<lambda>q. fst q \<notin> dedup_key ` set A) ?LB))"
    "unique_ids (merge_loop (map (\<lambda>d. (None, d)) B) ?st1) = dedup_key ` set A \<union> dedup_key ` set B"
    by (simp_all add: 1)
  have m: "merge_dedup A B = merge_loop (map (\<lambda>d. (None, d)) B) ?st1"
    by (simp add: merge_dedup_def merge_items_def merge_loop_append)
  have "AList.clearjunk (?LA @ ?LB)
        = AList.clearjunk ?LA @ AList.clearjunk (filter (\<lambda>q. fst q \<notin> dedup_key ` set A) ?LB)"
    using clearjunk_unseen_append [of "{}" ?LA ?LB] by (simp add: image_image)
  with 2 show "initial_docs (merge_dedup A B) = map snd (AList.clearjunk (?LA @ ?LB))"
    by (simp add: m)
  from 2 show "unique_ids (merge_dedup A B) = dedup_key ` set A \<union> dedup_key ` set B"
    by (simp add: m)
qed

lemma length_clearjunk: "length (AList.clearjunk al) = card (fst ` set al)"
proof -
  have "length (AList.clearjunk al) = length (map fst (AList.clearjunk al))" by simp
  also have "\<dots> = card (set (map fst (AList.clearjunk al)))"
    by (simp only: distinct_card [OF AList.distinct_clearjunk])
  also have "\<dots> = card (fst ` set al)" by (simp add: AList.dom_clearjunk)
  finally show ?thesis .
qed

lemma set_clearjunk_subset: "set (AList.clearjunk al) \<subseteq> set al"
proof (induction al rule: AList.clearjunk.induct)
  case 1
  then show ?case by simp
next
  case (2 p ps)
  have "set (AList.delete (fst p) ps) \<subseteq> set ps" by (auto simp: AList.delete_eq)
  with 2 show ?case by auto
qed

lemma find_keyed:
  "\<forall>p\<in>set al. fst p = f (snd p) \<Longrightarrow> find (\<lambda>d. f d = k) (map snd al) = map_of al k"
  by (induction al) auto

lemma map_of_keyed: "map_of (map (\<lambda>d. (f d, g d)) xs) k = map_option g (find (\<lambda>d. f d = k) xs)"
  by (induction xs) auto

lemma merge_dedup_find:
  "find (\<lambda>d. dedup_key d = k) (initial_docs (merge_dedup A B))
   = (case find (\<lambda>d. dedup_key d = k) A of
        Some a \<Rightarrow> Some (set_source_method ''BM25'' a)
      | None \<Rightarrow> map_option (set_source_method ''Vector'') (find (\<lambda>d. dedup_key d = k) B))"
proof -
  let ?LA = "map (\<lambda>d. (dedup_key d, set_source_method ''BM25'' d)) A"
  let ?LB = "map (\<lambda>d. (dedup_key d, set_source_method ''Vector'' d)) B"
  have keyed: "\<forall>p\<in>set (?LA @ ?LB). fst p = dedup_key (snd p)" by auto
  with set_clearjunk_subset [of "?LA @ ?LB"]
  have "\<forall>p\<in>set (AList.clearjunk (?LA @ ?LB)). fst p = dedup_key (snd p)" by blast
  then have "find (\<lambda>d. dedup_key d = k) (map snd (AList.clearjunk (?LA @ ?LB)))
             = map_of (AList.clearjunk (?LA @ ?LB)) k"
    by (rule find_keyed)
  also have "\<dots> = map_of (?LA @ ?LB) k" by (simp add: AList.map_of_clearjunk)
  also have "\<dots> = (case map_of ?LA k of Some a \<Rightarrow> Some a | None \<Rightarrow> map_of ?LB k)"
    by (simp add: map_add_def split: option.splits)
  finally show ?thesis
    by (simp add: merge_dedup_exact map_of_keyed split: option.splits)
qed

text \<open>
  C3 (as amended). The merged list holds exactly one entry for each de-duplication key that
  occurs in the lexical list \<open>A\<close> or the vector list \<open>B\<close>, the key being the chunk id when it
  is present and not empty and the page content itself otherwise (ids and contents share one
  key space). The entry for a key is the first document with that key in the order \<open>A\<close> then
  \<open>B\<close>, with its content and metadata, tagged BM25 when it comes from \<open>A\<close> and Vector when it
  comes from \<open>B\<close>; entries keep that order. So on a key present in both lists the lexical
  copy is kept and the tag is the lexical one. When neither list repeats a key, the merged
  list has \<open>|A| + |B| - N\<close> entries, \<open>N\<close> being the number of keys common to both.
\<close>

theorem dedup_count:
  "initial_docs (merge_dedup A B)
     = map snd (AList.clearjunk
         (map (\<lambda>d. (dedup_key d, d\<lparr>metadata := (metadata d)\<lparr>md_source_method := Some ''BM25''\<rparr>\<rparr>)) A
          @ map (\<lambda>d. (dedup_key d, d\<lparr>metadata := (metadata d)\<lparr>md_source_method := Some ''Vector''\<rparr>\<rparr>)) B))
   \<and> length (initial_docs (merge_dedup A B)) = card (dedup_key ` (set A \<union> set B))
   \<and> (distinct (map dedup_key A) \<and> distinct (map dedup_key B)
        \<longrightarrow> length (initial_docs (merge_dedup A B))
             = length A + length B - card (dedup_key ` set A \<inter> dedup_key ` set B))
   \<and> (\<forall>k. find (\<lambda>d. dedup_key d = k) (initial_docs (merge_dedup A B))
            = (case find (\<lambda>d. dedup_key d = k) A of
                 Some a \<Rightarrow> Some (a\<lparr>metadata := (metadata a)\<lparr>md_source_method := Some ''BM25''\<rparr>\<rparr>)
               | None \<Rightarrow>
                   map_option (\<lambda>b. b\<lparr>metadata := (metadata b)\<lparr>md_source_method := Some ''Vector''\<rparr>\<rparr>)
                     (find (\<lambda>d. dedup_key d = k) B)))"
proof (intro conjI impI allI)
  show "initial_docs (merge_dedup A B)
     = map snd (AList.clearjunk
         (map (\<lambda>d. (dedup_key d, d\<lparr>metadata := (metadata d)\<lparr>md_source_method := Some ''BM25''\<rparr>\<rparr>)) A
          @ map (\<lambda>d. (dedup_key d, d\<lparr>metadata := (metadata d)\<lparr>md_source_method := Some ''Vector''\<rparr>\<rparr>)) B))"
    using merge_dedup_exact(1) [of A B] by (simp only: set_source_method_def [abs_def])
  have keys: "fst ` set (map (\<lambda>d. (dedup_key d, set_source_method ''BM25'' d)) A
                         @ map (\<lambda>d. (dedup_key d, set_source_method ''Vector'' d)) B)
              = dedup_key ` (set A \<union> set B)"
    by (simp add: image_Un image_image)
  show len: "length (initial_docs (merge_dedup A B)) = card (dedup_key ` (set A \<union> set B))"
    by (simp only: merge_dedup_exact(1) length_map length_clearjunk keys)
  show "length (initial_docs (merge_dedup A B))
             = length A + length B - card (dedup_key ` set A \<inter> dedup_key ` set B)"
    if "distinct (map dedup_key A) \<and> distinct (map dedup_key B)"
  proof -
    from that have "card (dedup_key ` set A) = length A" "card (dedup_key ` set B) = length B"
      using distinct_card [of "map dedup_key A"] distinct_card [of "map dedup_key B"] by simp_all
    moreover have "card (dedup_key ` set A) + card (dedup_key ` set B)
          = card (dedup_key ` set A \<union> dedup_key ` set B) + card (dedup_key ` set A \<inter> dedup_key ` set B)"
      by (rule card_Un_Int) simp_all
    ultimately show ?thesis by (simp add: len image_Un)
  qed
  fix k
  show "find (\<lambda>d. dedup_key d = k) (initial_docs (merge_dedup A B))
            = (case find (\<lambda>d. dedup_key d = k) A of
                 Some a \<Rightarrow> Some (a\<lparr>metadata := (metadata a)\<lparr>md_source_method := Some ''BM25''\<rparr>\<rparr>)
               | None \<Rightarrow>
                   map_option (\<lambda>b. b\<lparr>metadata := (metadata b)\<lparr>md_source_method := Some ''Vector''\<rparr>\<rparr>)
                     (find (\<lambda>d. dedup_key d = k) B))"
    using merge_dedup_find [of k A B] by (simp only: set_source_method_def [abs_def])
qed

theorem dedup_count_witness:
  "initial_docs (merge_dedup [doc_lex1, doc_lex2, doc_lex3] [doc_vec1, doc_vec2, doc_vec3])
     = [doc_lex1\<lparr>metadata := (metadata doc_lex1)\<lparr>md_source_method := Some ''BM25''\<rparr>\<rparr>,
        doc_lex2\<lparr>metadata := (metadata doc_lex2)\<lparr>md_source_method := Some ''BM25''\<rparr>\<rparr>,
        doc_vec2\<lparr>metadata := (metadata doc_vec2)\<lparr>md_source_method := Some ''Vector''\<rparr>\<rparr>]
   \<and> card (dedup_key ` (set [doc_lex1, doc_lex2, doc_lex3] \<union> set [doc_vec1, doc_vec2, doc_vec3])) = 3
   \<and> distinct (map dedup_key [doc_lex1, doc_lex2])
   \<and> distinct (map dedup_key [doc_vec1, doc_vec2, doc_vec3])
   \<and> card (dedup_key ` set [doc_lex1, doc_lex2] \<inter> dedup_key ` set [doc_vec1, doc_vec2, doc_vec3]) = 2
   \<and> length (initial_docs (merge_dedup [doc_lex1, doc_lex2] [doc_vec1, doc_vec2, doc_vec3])) = 3
   \<and> find (\<lambda>d. dedup_key d = ''c1'')
        (initial_docs (merge_dedup [doc_lex1, doc_lex2, doc_lex3] [doc_vec1, doc_vec2, doc_vec3]))
       = Some (doc_lex1\<lparr>metadata := (metadata doc_lex1)\<lparr>md_source_method := Some ''BM25''\<rparr>\<rparr>)
   \<and> find (\<lambda>d. dedup_key d = ''c3'')
        (initial_docs (merge_dedup [doc_lex1, doc_lex2, doc_lex3] [doc_vec1, doc_vec2, doc_vec3]))
       = Some (doc_vec2\<lparr>metadata := (metadata doc_vec2)\<lparr>md_source_method := Some ''Vector''\<rparr>\<rparr>)"
proof -
  have k: "dedup_key doc_lex1 = ''c1''" "dedup_key doc_lex2 = ''legacy text''"
    "dedup_key doc_lex3 = ''c1''" "dedup_key doc_vec1 = ''c1''" "dedup_key doc_vec2 = ''c3''"
    "dedup_key doc_vec3 = ''legacy text''"
    by (simp_all add: dedup_key_def doc_lex1_def doc_lex2_def doc_lex3_def doc_vec1_def
        doc_vec2_def doc_vec3_def mk_doc_def)
  note a = dedup_count [of "[doc_lex1, doc_lex2, doc_lex3]" "[doc_vec1, doc_vec2, doc_vec3]"]
  note b = dedup_count [of "[doc_lex1, doc_lex2]" "[doc_vec1, doc_vec2, doc_vec3]"]
  have d: "distinct (map dedup_key [doc_lex1, doc_lex2])"
    "distinct (map dedup_key [doc_vec1, doc_vec2, doc_vec3])"
    by (simp_all add: k)
  have c: "dedup_key ` set [doc_lex1, doc_lex2] \<inter> dedup_key ` set [doc_vec1, doc_vec2, doc_vec3]
           = {''c1'', ''legacy text''}"
    by (auto simp: k)
  have c3: "dedup_key ` (set [doc_lex1, doc_lex2, doc_lex3] \<union> set [doc_vec1, doc_vec2, doc_vec3])
           = {''c1'', ''legacy text'', ''c3''}"
    by (auto simp: k)
  from a have "initial_docs (merge_dedup [doc_lex1, doc_lex2, doc_lex3] [doc_vec1, doc_vec2, doc_vec3])
     = map snd (AList.clearjunk
         (map (\<lambda>d. (dedup_key d, d\<lparr>metadata := (metadata d)\<lparr>md_source_method := Some ''BM25''\<rparr>\<rparr>))
              [doc_lex1, doc_lex2, doc_lex3]
          @ map (\<lambda>d. (dedup_key d, d\<lparr>metadata := (metadata d)\<lparr>md_source_method := Some ''Vector''\<rparr>\<rparr>))
              [doc_vec1, doc_vec2, doc_vec3]))"
    by blast
  then have 1: "initial_docs (merge_dedup [doc_lex1, doc_lex2, doc_lex3] [doc_vec1, doc_vec2, doc_vec3])
     = [doc_lex1\<lparr>metadata := (metadata doc_lex1)\<lparr>md_source_method := Some ''BM25''\<rparr>\<rparr>,
        doc_lex2\<lparr>metadata := (metadata doc_lex2)\<lparr>md_source_method := Some ''BM25''\<rparr>\<rparr>,
        doc_vec2\<lparr>metadata := (metadata doc_vec2)\<lparr>md_source_method := Some ''Vector''\<rparr>\<rparr>]"
    by (simp add: k AList.delete_eq)
  from b d have "length (initial_docs (merge_dedup [doc_lex1, doc_lex2] [doc_vec1, doc_vec2, doc_vec3]))
             = length [doc_lex1, doc_lex2] + length [doc_vec1, doc_vec2, doc_vec3]
               - card (dedup_key ` set [doc_lex1, doc_lex2] \<inter> dedup_key ` set [doc_vec1, doc_vec2, doc_vec3])"
    by blast
  then have 2: "length (initial_docs (merge_dedup [doc_lex1, doc_lex2] [doc_vec1, doc_vec2, doc_vec3])) = 3"
    by (simp only: c) simp
  from a have f: "\<forall>k. find (\<lambda>d. dedup_key d = k)
        (initial_docs (merge_dedup [doc_lex1, doc_lex2, doc_lex3] [doc_vec1, doc_vec2, doc_vec3]))
            = (case find (\<lambda>d. dedup_key d = k) [doc_lex1, doc_lex2, doc_lex3] of
                 Some a \<Rightarrow> Some (a\<lparr>metadata := (metadata a)\<lparr>md_source_method := Some ''BM25''\<rparr>\<rparr>)
               | None \<Rightarrow>
                   map_option (\<lambda>b. b\<lparr>metadata := (metadata b)\<lparr>md_source_method := Some ''Vector''\<rparr>\<rparr>)
                     (find (\<lambda>d. dedup_key d = k) [doc_vec1, doc_vec2, doc_vec3]))"
    by blast
  have 3: "find (\<lambda>d. dedup_key d = ''c1'')
        (initial_docs (merge_dedup [doc_lex1, doc_lex2, doc_lex3] [doc_vec1, doc_vec2, doc_vec3]))
       = Some (doc_lex1\<lparr>metadata := (metadata doc_lex1)\<lparr>md_source_method := Some ''BM25''\<rparr>\<rparr>)"
    by (simp only: f) (simp add: k)
  have 4: "find (\<lambda>d. dedup_key d = ''c3'')
        (initial_docs (merge_dedup [doc_lex1, doc_lex2, doc_lex3] [doc_vec1, doc_vec2, doc_vec3]))
       = Some (doc_vec2\<lparr>metadata := (metadata doc_vec2)\<lparr>md_source_method := Some ''Vector''\<rparr>\<rparr>)"
    by (simp only: f) (simp add: k)
  have 5: "card (dedup_key ` (set [doc_lex1, doc_lex2, doc_lex3] \<union> set [doc_vec1, doc_vec2, doc_vec3])) = 3"
    by (simp only: c3) simp
  have 6: "card (dedup_key ` set [doc_lex1, doc_lex2] \<inter> dedup_key ` set [doc_vec1, doc_vec2, doc_vec3]) = 2"
    by (simp only: c) simp
  from 1 2 3 4 5 6 d show ?thesis by blast
qed

text \<open>
  C3 as stated fails when a list repeats a key. The lexical search of two projects returns the
  per-project hits one after the other; with two hits under the chunk id \<open>c1\<close> and no vector
  hit, the lists share no id, the count of the claim is 2, and the merged list has one entry.
\<close>

theorem dedup_count_counterexample:
  "spec_fused_size [doc_lex1, doc_lex3] [] = 2
   \<and> initial_docs (merge_dedup [doc_lex1, doc_lex3] [])
       = [doc_lex1\<lparr>metadata := (metadata doc_lex1)\<lparr>md_source_method := Some ''BM25''\<rparr>\<rparr>]
   \<and> length (initial_docs (merge_dedup [doc_lex1, doc_lex3] [])) = 1"
  by (simp add: spec_fused_size_def merge_dedup_def merge_items_def merge_step_key keep_doc_fields
      enumerate_eq_zip upt_rec dedup_key_def doc_lex1_def doc_lex3_def mk_doc_def
      set_source_method_def in_bm25_docs_def)

subsection \<open>Vector store writer\<close>

text \<open>
  The batches that are written form a prefix of the prepared records, and which prefix, and
  whether the call raises, depends on the records only.
\<close>

lemma upsert_batches_prefix:
  "\<exists>n e. \<forall>coll. upsert_batches records coll
            = (fold (\<lambda>(i, r). AList.update i r) (take n records) coll, e)"
proof (induction "length records" arbitrary: records rule: less_induct)
  case less
  show ?case
  proof (cases "records = []")
    case True
    then have "\<forall>coll. upsert_batches records coll
                = (fold (\<lambda>(i, r). AList.update i r) (take 0 records) coll, None)"
      by (subst upsert_batches.simps) simp
    then show ?thesis by blast
  next
    case False
    show ?thesis
    proof (cases "distinct (map fst (take 100 records))")
      case True
      from False have "length (drop 100 records) < length records" by simp
      from less [OF this] obtain n e where
        IH: "\<forall>coll. upsert_batches (drop 100 records) coll
               = (fold (\<lambda>(i, r). AList.update i r) (take n (drop 100 records)) coll, e)"
        by blast
      have t: "take (100 + n) records = take 100 records @ take n (drop 100 records)"
        by (rule take_add)
      have "\<forall>coll. upsert_batches records coll
              = (fold (\<lambda>(i, r). AList.update i r) (take (100 + n) records) coll, e)"
      proof
        fix coll
        have "upsert_batches records coll
              = upsert_batches (drop 100 records)
                  (fold (\<lambda>(i, r). AList.update i r) (take 100 records) coll)"
          using False True by (subst upsert_batches.simps) (simp add: collection_upsert_def)
        also have "\<dots> = (fold (\<lambda>(i, r). AList.update i r) (take n (drop 100 records))
                            (fold (\<lambda>(i, r). AList.update i r) (take 100 records) coll), e)"
          by (simp only: IH)
        also have "\<dots> = (fold (\<lambda>(i, r). AList.update i r) (take (100 + n) records) coll, e)"
          by (simp only: t fold_append comp_apply)
        finally show "upsert_batches records coll
              = (fold (\<lambda>(i, r). AList.update i r) (take (100 + n) records) coll, e)" .
      qed
      then show ?thesis by blast
    next
      case dup: False
      have "\<forall>coll. upsert_batches records coll
              = (fold (\<lambda>(i, r). AList.update i r) (take 0 records) coll, Some DuplicateIDError)"
        using False dup by (subst upsert_batches.simps) (simp add: collection_upsert_def)
      then show ?thesis by blast
    qed
  qed
qed





lemma add_chunks_batches:
  "add_chunks encode chunks coll = upsert_batches (prepare_records encode chunks) coll"
proof (cases "prepare_records encode chunks = []")
  case True
  then show ?thesis
    by (subst upsert_batches.simps) (simp add: add_chunks_def Let_def)
next
  case False
  then have "chunks \<noteq> []" by (auto simp: prepare_records_def)
  with False show ?thesis by (simp add: add_chunks_def Let_def)
qed

lemma add_chunks_prefix:
  "\<exists>n e. \<forall>coll. add_chunks encode chunks coll
            = (fold (\<lambda>(i, r). AList.update i r) (take n (prepare_records encode chunks)) coll, e)"
  unfolding add_chunks_batches by (rule upsert_batches_prefix)



lemma prepared_ids:
  "fst ` set (prepare_records encode chunks) = chunk_id ` {c \<in> set chunks. \<not> too_long_parent c}"
  by (auto simp: prepare_records_def image_iff)


lemma add_chunks_other_id:
  assumes "k \<notin> chunk_id ` {c \<in> set chunks. \<not> too_long_parent c}"
  shows "map_of (fst (add_chunks encode chunks coll)) k = map_of coll k"
proof -
  from add_chunks_prefix [of encode chunks] obtain n e where
    p: "\<forall>coll. add_chunks encode chunks coll
            = (fold (\<lambda>(i, r). AList.update i r) (take n (prepare_records encode chunks)) coll, e)"
    by blast
  from assms have "k \<notin> fst ` set (prepare_records encode chunks)" by (simp add: prepared_ids)
  then have "k \<notin> fst ` set (take n (prepare_records encode chunks))"
    by (auto dest: in_set_takeD)
  then have "map_of (rev (take n (prepare_records encode chunks))) k = None"
    by (simp add: map_of_eq_None_iff)
  then show ?thesis by (simp add: p map_of_fold_update map_add_def)
qed


text \<open>
  C10. A chunk of the batch that is marked as a parent and is longer than 800 characters is
  skipped: when no other (kept) chunk of the batch carries its id, the collection's entry for
  that id is what it was before the call (none, if there was none), whether the call returns
  or raises, so the chunk does not become a retrievable record. Its content still reaches the index as the \<^verbatim>\<open>full_context\<close>
  metadata of every kept chunk of the batch that names it as parent.
\<close>

theorem long_parent_dropped:
  assumes "c \<in> set chunks" and "is_parent c" and "length (content c) > 800"
  shows "((\<forall>x\<in>set chunks. chunk_id x = chunk_id c \<longrightarrow> too_long_parent x)
           \<longrightarrow> map_of (fst (add_chunks encode chunks coll)) (chunk_id c) = map_of coll (chunk_id c))
     \<and> (\<forall>ch\<in>set chunks. \<not> too_long_parent ch \<and> parent_id ch = Some (chunk_id c)
             \<and> chunk_id c \<noteq> []
             \<and> (\<forall>x\<in>set chunks. is_parent x \<and> chunk_id x = chunk_id c \<longrightarrow> content x = content c)
           \<longrightarrow> (\<exists>r. (chunk_id ch, r) \<in> set (prepare_records encode chunks)
                 \<and> map_of (vs_metadata r) ''full_context'' = Some (MStr (content c))))"
proof (rule conjI)
  show "(\<forall>x\<in>set chunks. chunk_id x = chunk_id c \<longrightarrow> too_long_parent x)
           \<longrightarrow> map_of (fst (add_chunks encode chunks coll)) (chunk_id c) = map_of coll (chunk_id c)"
    by (auto intro: add_chunks_other_id)
next
  have pm: "parent_map chunks (chunk_id c) = Some (content c)"
    if "\<forall>x\<in>set chunks. is_parent x \<and> chunk_id x = chunk_id c \<longrightarrow> content x = content c"
  proof -
    let ?ps = "map (\<lambda>c. (chunk_id c, content c)) (filter is_parent chunks)"
    from assms have kin: "chunk_id c \<in> fst ` set ?ps" by (force simp: image_iff)
    then have "filter (\<lambda>p. fst p = chunk_id c) ?ps \<noteq> []"
      by (auto simp: filter_empty_conv)
    then have "last (filter (\<lambda>p. fst p = chunk_id c) ?ps) \<in> set (filter (\<lambda>p. fst p = chunk_id c) ?ps)"
      by (rule last_in_set)
    with that have "snd (last (filter (\<lambda>p. fst p = chunk_id c) ?ps)) = content c"
      by auto
    with map_of_rev_last [OF kin] show ?thesis by (simp add: parent_map_def)
  qed
  show "\<forall>ch\<in>set chunks. \<not> too_long_parent ch \<and> parent_id ch = Some (chunk_id c)
             \<and> chunk_id c \<noteq> []
             \<and> (\<forall>x\<in>set chunks. is_parent x \<and> chunk_id x = chunk_id c \<longrightarrow> content x = content c)
           \<longrightarrow> (\<exists>r. (chunk_id ch, r) \<in> set (prepare_records encode chunks)
                 \<and> map_of (vs_metadata r) ''full_context'' = Some (MStr (content c)))"
  proof (intro ballI impI)
    fix ch assume ch: "ch \<in> set chunks"
      and h: "\<not> too_long_parent ch \<and> parent_id ch = Some (chunk_id c) \<and> chunk_id c \<noteq> []
             \<and> (\<forall>x\<in>set chunks. is_parent x \<and> chunk_id x = chunk_id c \<longrightarrow> content x = content c)"
    let ?r = "\<lparr>vs_document = content ch,
               vs_metadata = clean_meta (fuse_parent (parent_map chunks) ch),
               vs_embedding = encode (content ch)\<rparr>"
    from ch h have "(chunk_id ch, ?r) \<in> set (prepare_records encode chunks)"
      by (auto simp: prepare_records_def image_iff)
    moreover have "map_of (vs_metadata ?r) ''full_context'' = Some (MStr (content c))"
      using h pm by (simp add: fuse_parent_def clean_meta_def map_of_map update_conv')
    ultimately show "\<exists>r. (chunk_id ch, r) \<in> set (prepare_records encode chunks)
                 \<and> map_of (vs_metadata r) ''full_context'' = Some (MStr (content c))"
      by blast
  qed
qed

theorem long_parent_dropped_witness:
  "long_parent \<in> set [long_parent, child_chunk] \<and> is_parent long_parent
   \<and> length (content long_parent) > 800
   \<and> map_of (fst (add_chunks embed_len [long_parent, child_chunk] [])) (chunk_id long_parent) = None
   \<and> (\<exists>r. (chunk_id child_chunk, r) \<in> set (prepare_records embed_len [long_parent, child_chunk])
          \<and> map_of (vs_metadata r) ''full_context'' = Some (MStr (content long_parent)))"
  using long_parent_dropped [of long_parent "[long_parent, child_chunk]" embed_len "[]"]
  by (simp add: long_parent_def child_chunk_def too_long_parent_def)

subsection \<open>Persisted lexical index\<close>







lemma paths_differ: "fst (get_file_paths env p) \<noteq> snd (get_file_paths env p)"
  by (simp add: get_file_paths_def Let_def)

lemma update_project_index_state:
  "update_project_index env project new_chunks fs
   = (let full = merged_corpus env (load_existing fs (snd (get_file_paths env project))) new_chunks
      in if full = [] then fs
         else fs(fst (get_file_paths env project)
                    \<mapsto> ModelFile (BM25Okapi (map (\<lambda>doc. tokenize env (item_content doc)) full)),
                 snd (get_file_paths env project) \<mapsto> DataFile full))"
  by (cases "get_file_paths env project")
     (simp add: update_project_index_def update_ops_def run_ops_def Let_def)




subsection \<open>Idempotent upsert\<close>






subsection \<open>Persistence of the lexical index\<close>

lemma update_ops_cases:
  "update_ops env fs project new_chunks
   = (if merged_corpus env (load_existing fs (snd (get_file_paths env project))) new_chunks = [] then []
      else [OpenTruncate (fst (get_file_paths env project)),
            Dump (fst (get_file_paths env project))
              (ModelFile (BM25Okapi (map (\<lambda>doc. tokenize env (item_content doc))
                 (merged_corpus env (load_existing fs (snd (get_file_paths env project))) new_chunks)))),
            OpenTruncate (snd (get_file_paths env project)),
            Dump (snd (get_file_paths env project))
              (DataFile (merged_corpus env (load_existing fs (snd (get_file_paths env project))) new_chunks))])"
  by (cases "get_file_paths env project") (simp add: update_ops_def Let_def)

lemma index_consistent_after_update:
  assumes "merged_corpus env (load_existing fs (snd (get_file_paths env project))) new_chunks \<noteq> []"
  shows "index_consistent env (update_project_index env project new_chunks fs) project"
  using assms paths_differ [of env project]
  by (cases "get_file_paths env project")
     (simp add: index_consistent_def update_project_index_state Let_def)

lemma index_inconsistent_truncated:
  "\<not> index_consistent env (fs(fst (get_file_paths env project) \<mapsto> Unreadable)) project"
  by (cases "get_file_paths env project") (simp add: index_consistent_def split: option.splits)

lemma paths_P1: "get_file_paths example_env ''P1'' = (''bm25_indices/P1_model.pkl'', ''bm25_indices/P1_data.pkl'')"
  by (simp add: get_file_paths_def example_env_def safe_name_def strip_blanks_def index_dir_def)

lemma merged_P1: "merged_corpus example_env (load_existing fs_one ''bm25_indices/P1_data.pkl'') [item_b] = [item_a, item_b]"
  by (simp add: merged_corpus_def load_existing_def fs_one_def load_items_def item_key_def item_a_def item_b_def)

lemma ops_P1:
  "update_ops example_env fs_one ''P1'' [item_b]
   = [OpenTruncate ''bm25_indices/P1_model.pkl'',
      Dump ''bm25_indices/P1_model.pkl'' (ModelFile (BM25Okapi [[''excavators: 4''], [''dump trucks: 10'']])),
      OpenTruncate ''bm25_indices/P1_data.pkl'',
      Dump ''bm25_indices/P1_data.pkl'' (DataFile [item_a, item_b])]"
proof -
  have "map (\<lambda>doc. tokenize example_env (item_content doc)) [item_a, item_b]
        = [[''excavators: 4''], [''dump trucks: 10'']]"
    by (simp add: example_env_def item_a_def item_b_def)
  then show ?thesis
    by (simp add: update_ops_cases paths_P1 merged_P1)
qed

lemma search_P1:
  "search_project example_env fs toks ''P1'' n
   = (case fs ''bm25_indices/P1_model.pkl'' of
        None \<Rightarrow> []
      | Some (ModelFile bm25) \<Rightarrow>
          (case fs ''bm25_indices/P1_data.pkl'' of
             Some (DataFile corpus_data) \<Rightarrow>
               (case get_top_n example_env bm25 toks corpus_data n of Inr top_n \<Rightarrow> top_n | Inl e \<Rightarrow> [])
           | _ \<Rightarrow> [])
      | Some _ \<Rightarrow> [])"
  by (simp add: search_project_def paths_P1 all_projects_def)

lemma top_n_example:
  "get_top_n example_env (BM25Okapi corpus) toks docs n
   = (if length corpus \<noteq> length docs then Inl AssertionError else Inr (take n docs))"
  by (simp add: example_env_def)

lemma observable_states_update:
  assumes "merged_corpus env (load_existing fs (snd (get_file_paths env project))) new_chunks \<noteq> []"
  shows "observable_states (update_ops env fs project new_chunks) fs
     = [fs,
        fs(fst (get_file_paths env project) \<mapsto> Unreadable),
        fs(fst (get_file_paths env project)
             \<mapsto> ModelFile (BM25Okapi (map (\<lambda>doc. tokenize env (item_content doc))
                  (merged_corpus env (load_existing fs (snd (get_file_paths env project))) new_chunks)))),
        fs(fst (get_file_paths env project)
             \<mapsto> ModelFile (BM25Okapi (map (\<lambda>doc. tokenize env (item_content doc))
                  (merged_corpus env (load_existing fs (snd (get_file_paths env project))) new_chunks))),
           snd (get_file_paths env project) \<mapsto> Unreadable),
        fs(fst (get_file_paths env project)
             \<mapsto> ModelFile (BM25Okapi (map (\<lambda>doc. tokenize env (item_content doc))
                  (merged_corpus env (load_existing fs (snd (get_file_paths env project))) new_chunks))),
           snd (get_file_paths env project)
             \<mapsto> DataFile (merged_corpus env (load_existing fs (snd (get_file_paths env project)))
                  new_chunks))]"
  using assms by (simp add: update_ops_cases)

text \<open>
  C5 (as amended). An update whose merged corpus is empty writes nothing. Otherwise it
  performs four operations, in this order: truncate the index file, dump the new index into
  it, truncate the corpus file, dump the merged corpus into it. So it writes only to the
  project's two target files, in place, index file first and corpus file second: no operation
  is a rename and no other (temporary) path is written. A concurrent reader can find the
  directory in the state before, and in the state after each operation: after the first the
  index file is truncated, after the second the new index stands next to the old corpus
  file, after the third the corpus file is truncated. The completed update leaves a matching
  pair (the index built from exactly the persisted corpus, which is the merged corpus); the
  state after the first operation is not a fully materialised pair.
\<close>

theorem lexical_persistence_in_place:
  "(\<forall>op\<in>set (update_ops env fs project new_chunks).
        \<not> is_rename op
      \<and> written_path op \<in> {fst (get_file_paths env project), snd (get_file_paths env project)})
   \<and> (merged_corpus env (load_existing fs (snd (get_file_paths env project))) new_chunks = []
        \<longrightarrow> update_ops env fs project new_chunks = []
          \<and> update_project_index env project new_chunks fs = fs)
   \<and> (merged_corpus env (load_existing fs (snd (get_file_paths env project))) new_chunks \<noteq> []
        \<longrightarrow> update_ops env fs project new_chunks
            = [OpenTruncate (fst (get_file_paths env project)),
               Dump (fst (get_file_paths env project))
                 (ModelFile (BM25Okapi (map (\<lambda>doc. tokenize env (item_content doc))
                    (merged_corpus env (load_existing fs (snd (get_file_paths env project)))
                       new_chunks)))),
               OpenTruncate (snd (get_file_paths env project)),
               Dump (snd (get_file_paths env project))
                 (DataFile (merged_corpus env (load_existing fs (snd (get_file_paths env project)))
                    new_chunks))]
          \<and> observable_states (update_ops env fs project new_chunks) fs
            = [fs,
               fs(fst (get_file_paths env project) \<mapsto> Unreadable),
               fs(fst (get_file_paths env project)
                    \<mapsto> ModelFile (BM25Okapi (map (\<lambda>doc. tokenize env (item_content doc))
                         (merged_corpus env (load_existing fs (snd (get_file_paths env project)))
                            new_chunks)))),
               fs(fst (get_file_paths env project)
                    \<mapsto> ModelFile (BM25Okapi (map (\<lambda>doc. tokenize env (item_content doc))
                         (merged_corpus env (load_existing fs (snd (get_file_paths env project)))
                            new_chunks))),
                  snd (get_file_paths env project) \<mapsto> Unreadable),
               update_project_index env project new_chunks fs]
          \<and> index_consistent env (update_project_index env project new_chunks fs) project
          \<and> load_existing (update_project_index env project new_chunks fs)
                (snd (get_file_paths env project))
              = merged_corpus env (load_existing fs (snd (get_file_paths env project))) new_chunks
          \<and> \<not> index_consistent env
                (observable_states (update_ops env fs project new_chunks) fs ! 1) project)"
proof (intro conjI impI)
  show "\<forall>op\<in>set (update_ops env fs project new_chunks).
        \<not> is_rename op
      \<and> written_path op \<in> {fst (get_file_paths env project), snd (get_file_paths env project)}"
    by (simp add: update_ops_cases)
next
  assume e: "merged_corpus env (load_existing fs (snd (get_file_paths env project))) new_chunks = []"
  then show "update_ops env fs project new_chunks = []" by (simp add: update_ops_cases)
  from e show "update_project_index env project new_chunks fs = fs"
    by (simp add: update_project_index_state)
next
  assume ne: "merged_corpus env (load_existing fs (snd (get_file_paths env project))) new_chunks \<noteq> []"
  then show "update_ops env fs project new_chunks
            = [OpenTruncate (fst (get_file_paths env project)),
               Dump (fst (get_file_paths env project))
                 (ModelFile (BM25Okapi (map (\<lambda>doc. tokenize env (item_content doc))
                    (merged_corpus env (load_existing fs (snd (get_file_paths env project)))
                       new_chunks)))),
               OpenTruncate (snd (get_file_paths env project)),
               Dump (snd (get_file_paths env project))
                 (DataFile (merged_corpus env (load_existing fs (snd (get_file_paths env project)))
                    new_chunks))]"
    by (simp add: update_ops_cases)
  from ne show "observable_states (update_ops env fs project new_chunks) fs
            = [fs,
               fs(fst (get_file_paths env project) \<mapsto> Unreadable),
               fs(fst (get_file_paths env project)
                    \<mapsto> ModelFile (BM25Okapi (map (\<lambda>doc. tokenize env (item_content doc))
                         (merged_corpus env (load_existing fs (snd (get_file_paths env project)))
                            new_chunks)))),
               fs(fst (get_file_paths env project)
                    \<mapsto> ModelFile (BM25Okapi (map (\<lambda>doc. tokenize env (item_content doc))
                         (merged_corpus env (load_existing fs (snd (get_file_paths env project)))
                            new_chunks))),
                  snd (get_file_paths env project) \<mapsto> Unreadable),
               update_project_index env project new_chunks fs]"
    by (simp add: observable_states_update update_project_index_state Let_def)
  from ne show "index_consistent env (update_project_index env project new_chunks fs) project"
    by (rule index_consistent_after_update)
  from ne show "load_existing (update_project_index env project new_chunks fs)
                (snd (get_file_paths env project))
              = merged_corpus env (load_existing fs (snd (get_file_paths env project))) new_chunks"
    by (simp add: update_project_index_state Let_def load_existing_def)
  from ne show "\<not> index_consistent env
                (observable_states (update_ops env fs project new_chunks) fs ! 1) project"
    by (simp add: update_ops_cases index_inconsistent_truncated)
qed

theorem lexical_persistence_in_place_witness:
  "merged_corpus example_env (load_existing fs_one (snd (get_file_paths example_env ''P1''))) [item_b] \<noteq> []
   \<and> list_all (\<lambda>op. \<not> is_rename op
                 \<and> written_path op \<in> {''bm25_indices/P1_model.pkl'', ''bm25_indices/P1_data.pkl''})
        (update_ops example_env fs_one ''P1'' [item_b])
   \<and> update_ops example_env fs_one ''P1'' [item_b]
       = [OpenTruncate ''bm25_indices/P1_model.pkl'',
          Dump ''bm25_indices/P1_model.pkl''
            (ModelFile (BM25Okapi [[''excavators: 4''], [''dump trucks: 10'']])),
          OpenTruncate ''bm25_indices/P1_data.pkl'',
          Dump ''bm25_indices/P1_data.pkl'' (DataFile [item_a, item_b])]
   \<and> observable_states (update_ops example_env fs_one ''P1'' [item_b]) fs_one
       = [fs_one,
          fs_one(''bm25_indices/P1_model.pkl'' \<mapsto> Unreadable),
          fs_one(''bm25_indices/P1_model.pkl''
                   \<mapsto> ModelFile (BM25Okapi [[''excavators: 4''], [''dump trucks: 10'']])),
          fs_one(''bm25_indices/P1_model.pkl''
                   \<mapsto> ModelFile (BM25Okapi [[''excavators: 4''], [''dump trucks: 10'']]),
                 ''bm25_indices/P1_data.pkl'' \<mapsto> Unreadable),
          update_project_index example_env ''P1'' [item_b] fs_one]
   \<and> index_consistent example_env (update_project_index example_env ''P1'' [item_b] fs_one) ''P1''
   \<and> load_existing (update_project_index example_env ''P1'' [item_b] fs_one) ''bm25_indices/P1_data.pkl''
       = [item_a, item_b]
   \<and> \<not> index_consistent example_env
         (observable_states (update_ops example_env fs_one ''P1'' [item_b]) fs_one ! 1) ''P1''"
proof -
  have t: "tokenize example_env (item_content item_a) = [''excavators: 4'']"
    "tokenize example_env (item_content item_b) = [''dump trucks: 10'']"
    by (simp_all add: example_env_def item_a_def item_b_def)
  have c1: "\<not> index_consistent example_env (fs_one(''bm25_indices/P1_model.pkl'' \<mapsto> Unreadable)) ''P1''"
    by (simp add: index_consistent_def paths_P1 split: option.splits)
  show ?thesis
    using lexical_persistence_in_place [of example_env fs_one "''P1''" "[item_b]"]
    by (simp add: paths_P1 merged_P1 list_all_iff t update_project_index_state Let_def c1)
qed

text \<open>
  C5 as stated fails: updating the consistent index of project \<open>P1\<close> with one more entry
  performs no rename and passes through states that are not fully materialised; in the state
  after the second operation (new index, old corpus) a search that found \<open>item_a\<close> before
  the update finds nothing.
\<close>

theorem atomic_persistence_counterexample:
  "index_consistent example_env fs_one ''P1''
   \<and> \<not> (\<forall>st\<in>set (observable_states (update_ops example_env fs_one ''P1'' [item_b]) fs_one).
          index_consistent example_env st ''P1'')
   \<and> \<not> list_ex is_rename (update_ops example_env fs_one ''P1'' [item_b])
   \<and> bm25_search example_env fs_one ''excavators'' [''P1''] 5 = [item_a]
   \<and> bm25_search example_env
        (observable_states (update_ops example_env fs_one ''P1'' [item_b]) fs_one ! 2)
        ''excavators'' [''P1''] 5 = []"
proof -
  have c0: "index_consistent example_env fs_one ''P1''"
  proof -
    have "map (\<lambda>doc. tokenize example_env (item_content doc)) [item_a] = [[''excavators: 4'']]"
      by (simp add: example_env_def item_a_def)
    then show ?thesis by (simp add: index_consistent_def paths_P1 fs_one_def)
  qed
  have c1: "\<not> index_consistent example_env (fs_one(''bm25_indices/P1_model.pkl'' \<mapsto> Unreadable)) ''P1''"
    by (simp add: index_consistent_def paths_P1 split: option.splits)
  have s0: "bm25_search example_env fs_one ''excavators'' [''P1''] 5 = [item_a]"
    by (simp add: bm25_search_def search_P1 fs_one_def top_n_example)
  have s2: "bm25_search example_env
        (observable_states (update_ops example_env fs_one ''P1'' [item_b]) fs_one ! 2)
        ''excavators'' [''P1''] 5 = []"
  proof -
    have st2: "observable_states (update_ops example_env fs_one ''P1'' [item_b]) fs_one ! 2
               = fs_one(''bm25_indices/P1_model.pkl''
                   \<mapsto> ModelFile (BM25Okapi [[''excavators: 4''], [''dump trucks: 10'']]))"
      by (simp add: ops_P1)
    show ?thesis
      unfolding st2 by (simp add: bm25_search_def search_P1 fs_one_def top_n_example)
  qed
  from c0 c1 s0 s2 show ?thesis by (simp add: ops_P1)
qed

subsection \<open>Fusion without assumptions on the recalled lists\<close>

lemma merge_loop_bm25_general:
  assumes "bm25_docs st = P @ A" and "length P = n"
  shows "\<exists>kept A'. initial_docs (merge_loop (map (\<lambda>(i, d). (Some i, d)) (enumerate n A)) st)
                     = initial_docs st @ map (set_source_method ''BM25'') kept
             \<and> set kept \<subseteq> set A
             \<and> bm25_docs (merge_loop (map (\<lambda>(i, d). (Some i, d)) (enumerate n A)) st) = P @ A'
             \<and> map dedup_key A' = map dedup_key A
             \<and> unique_ids (merge_loop (map (\<lambda>(i, d). (Some i, d)) (enumerate n A)) st)
                 = unique_ids st \<union> dedup_key ` set A"
  using assms
proof (induction A arbitrary: n st P)
  case Nil
  show ?case by (rule exI [of _ "[]"], rule exI [of _ "[]"]) (simp add: Nil)
next
  case (Cons a A)
  let ?items = "map (\<lambda>(i, d). (Some i, d)) (enumerate (Suc n) A)"
  show ?case
  proof (cases "dedup_key a \<in> unique_ids st")
    case True
    have step: "merge_loop (map (\<lambda>(i, d). (Some i, d)) (enumerate n (a # A))) st = merge_loop ?items st"
      using True by (simp add: merge_step_key)
    from Cons.prems have "bm25_docs st = (P @ [a]) @ A" "length (P @ [a]) = Suc n" by simp_all
    from Cons.IH [OF this] obtain kept A' where
      IH: "initial_docs (merge_loop ?items st) = initial_docs st @ map (set_source_method ''BM25'') kept"
        "set kept \<subseteq> set A" "bm25_docs (merge_loop ?items st) = (P @ [a]) @ A'"
        "map dedup_key A' = map dedup_key A"
        "unique_ids (merge_loop ?items st) = unique_ids st \<union> dedup_key ` set A"
      by blast
    show ?thesis
      unfolding step
      by (rule exI [of _ kept], rule exI [of _ "a # A'"]) (use IH True in auto)
  next
    case False
    let ?a' = "set_source_method ''BM25'' a"
    let ?st' = "keep_doc (Some n) a (dedup_key a) st"
    have step: "merge_loop (map (\<lambda>(i, d). (Some i, d)) (enumerate n (a # A))) st = merge_loop ?items ?st'"
      using False by (simp add: merge_step_key)
    have st': "unique_ids ?st' = insert (dedup_key a) (unique_ids st)"
      "initial_docs ?st' = initial_docs st @ [?a']"
      "bm25_docs ?st' = (P @ [?a']) @ A"
      using Cons.prems by (simp_all add: keep_doc_fields in_bm25_docs_def list_update_append)
    have "length (P @ [?a']) = Suc n" using Cons.prems by simp
    from Cons.IH [OF st'(3) this] obtain kept A' where
      IH: "initial_docs (merge_loop ?items ?st') = initial_docs ?st' @ map (set_source_method ''BM25'') kept"
        "set kept \<subseteq> set A" "bm25_docs (merge_loop ?items ?st') = (P @ [?a']) @ A'"
        "map dedup_key A' = map dedup_key A"
        "unique_ids (merge_loop ?items ?st') = unique_ids ?st' \<union> dedup_key ` set A"
      by blast
    show ?thesis
      unfolding step
      by (rule exI [of _ "a # kept"], rule exI [of _ "?a' # A'"]) (use IH in \<open>auto simp: st'\<close>)
  qed
qed

lemma merge_loop_vector_general:
  assumes "dedup_key ` set (bm25_docs st) \<subseteq> unique_ids st"
  shows "\<exists>kept. initial_docs (merge_loop (map (\<lambda>d. (None, d)) B) st)
                     = initial_docs st @ map (set_source_method ''Vector'') kept
             \<and> set kept \<subseteq> set B
             \<and> unique_ids (merge_loop (map (\<lambda>d. (None, d)) B) st)
                 = unique_ids st \<union> dedup_key ` set B"
  using assms
proof (induction B arbitrary: st)
  case Nil
  show ?case by (rule exI [of _ "[]"]) simp
next
  case (Cons v B)
  show ?case
  proof (cases "dedup_key v \<in> unique_ids st")
    case True
    from Cons.IH [OF Cons.prems] obtain kept where
      "initial_docs (merge_loop (map (\<lambda>d. (None, d)) B) st)
         = initial_docs st @ map (set_source_method ''Vector'') kept"
      "set kept \<subseteq> set B"
      "unique_ids (merge_loop (map (\<lambda>d. (None, d)) B) st) = unique_ids st \<union> dedup_key ` set B"
      by blast
    moreover have "merge_loop (map (\<lambda>d. (None, d)) (v # B)) st = merge_loop (map (\<lambda>d. (None, d)) B) st"
      using True by (simp add: merge_step_key)
    ultimately show ?thesis
      using True by (intro exI [of _ kept]) auto
  next
    case False
    let ?st' = "keep_doc None v (dedup_key v) st"
    from False Cons.prems have "v \<notin> set (bm25_docs st)" by auto
    then have st': "unique_ids ?st' = insert (dedup_key v) (unique_ids st)"
      "initial_docs ?st' = initial_docs st @ [set_source_method ''Vector'' v]"
      "bm25_docs ?st' = bm25_docs st"
      by (simp_all add: keep_doc_fields in_bm25_docs_def)
    have "dedup_key ` set (bm25_docs ?st') \<subseteq> unique_ids ?st'"
      using Cons.prems by (auto simp: st')
    from Cons.IH [OF this] obtain kept where
      "initial_docs (merge_loop (map (\<lambda>d. (None, d)) B) ?st')
         = initial_docs ?st' @ map (set_source_method ''Vector'') kept"
      "set kept \<subseteq> set B"
      "unique_ids (merge_loop (map (\<lambda>d. (None, d)) B) ?st') = unique_ids ?st' \<union> dedup_key ` set B"
      by blast
    moreover have "merge_loop (map (\<lambda>d. (None, d)) (v # B)) st = merge_loop (map (\<lambda>d. (None, d)) B) ?st'"
      using False by (simp add: merge_step_key)
    ultimately show ?thesis
      by (intro exI [of _ "v # kept"]) (auto simp: st')
  qed
qed

lemma merge_dedup_general:
  "\<exists>keptA keptB. initial_docs (merge_dedup A B)
        = map (set_source_method ''BM25'') keptA @ map (set_source_method ''Vector'') keptB
      \<and> set keptA \<subseteq> set A \<and> set keptB \<subseteq> set B
      \<and> unique_ids (merge_dedup A B) = dedup_key ` set A \<union> dedup_key ` set B"
proof -
  let ?st0 = "\<lparr>unique_ids = {}, initial_docs = [], bm25_docs = A\<rparr>"
  let ?st1 = "merge_loop (map (\<lambda>(i, d). (Some i, d)) (enumerate 0 A)) ?st0"
  from merge_loop_bm25_general [of ?st0 "[]" A 0] obtain keptA A' where
    1: "initial_docs ?st1 = map (set_source_method ''BM25'') keptA" "set keptA \<subseteq> set A"
       "bm25_docs ?st1 = A'" "map dedup_key A' = map dedup_key A"
       "unique_ids ?st1 = dedup_key ` set A"
    by auto
  from 1(4) have "dedup_key ` set A' = dedup_key ` set A" by (metis list.set_map)
  with 1 have "dedup_key ` set (bm25_docs ?st1) \<subseteq> unique_ids ?st1" by simp
  from merge_loop_vector_general [OF this, of B] obtain keptB where
    2: "initial_docs (merge_loop (map (\<lambda>d. (None, d)) B) ?st1)
         = initial_docs ?st1 @ map (set_source_method ''Vector'') keptB"
       "set keptB \<subseteq> set B"
       "unique_ids (merge_loop (map (\<lambda>d. (None, d)) B) ?st1) = unique_ids ?st1 \<union> dedup_key ` set B"
    by blast
  have "merge_dedup A B = merge_loop (map (\<lambda>d. (None, d)) B) ?st1"
    by (simp add: merge_dedup_def merge_items_def merge_loop_append)
  with 1 2 show ?thesis by auto
qed

lemma merge_loop_grows:
  "length (initial_docs st) \<le> length (initial_docs (merge_loop items st))"
proof (induction items arbitrary: st)
  case Nil
  then show ?case by simp
next
  case (Cons item items)
  obtain origin d where item: "item = (origin, d)" by (cases item)
  have "length (initial_docs st) \<le> length (initial_docs (merge_step item st))"
    by (simp add: item merge_step_key keep_doc_fields)
  also have "\<dots> \<le> length (initial_docs (merge_loop items (merge_step item st)))"
    by (rule Cons.IH)
  finally show ?case by simp
qed

lemma merge_dedup_empty:
  "initial_docs (merge_dedup A B) = [] \<longleftrightarrow> A = [] \<and> B = []"
proof
  assume e: "initial_docs (merge_dedup A B) = []"
  show "A = [] \<and> B = []"
  proof (rule ccontr)
    assume "\<not> (A = [] \<and> B = [])"
    then obtain item items where items: "merge_items A B = item # items"
      by (cases A; cases B) (auto simp: merge_items_def enumerate_eq_zip upt_rec)
    obtain origin d where item: "item = (origin, d)" by (cases item)
    let ?st0 = "\<lparr>unique_ids = {}, initial_docs = [], bm25_docs = A\<rparr>"
    have "length (initial_docs (merge_step item ?st0)) = 1"
      by (simp add: item merge_step_key keep_doc_fields)
    moreover have "length (initial_docs (merge_step item ?st0))
           \<le> length (initial_docs (merge_loop items (merge_step item ?st0)))"
      by (rule merge_loop_grows)
    ultimately have "initial_docs (merge_dedup A B) \<noteq> []"
      by (auto simp: merge_dedup_def items)
    with e show False by contradiction
  qed
next
  assume "A = [] \<and> B = []"
  then show "initial_docs (merge_dedup A B) = []"
    by (simp add: merge_dedup_def merge_items_def)
qed

subsection \<open>Graph expansion and the fused candidate list\<close>

lemma graph_document_fields [simp]:
  "is_graph_sourced (graph_document n)" "md_source_file (metadata (graph_document n)) = None"
  by (simp_all add: is_graph_sourced_def graph_document_def)

lemma visit_node_shape:
  "\<exists>gs. fst (visit_node node acc) = fst acc @ gs
        \<and> (\<forall>g\<in>set gs. is_graph_sourced g \<and> md_source_file (metadata g) = None)"
proof (cases node)
  case None
  then show ?thesis by (simp add: visit_node_def)
next
  case (Some n)
  obtain docs seen where acc: "acc = (docs, seen)" by (cases acc)
  show ?thesis
  proof (cases "node_id n \<in> seen")
    case True
    then show ?thesis by (simp add: visit_node_def Some acc)
  next
    case False
    then show ?thesis
      by (intro exI [of _ "[graph_document n]"]) (simp add: visit_node_def Some acc)
  qed
qed

lemma visit_row_shape:
  "\<exists>gs. fst (visit_row row acc) = fst acc @ gs
        \<and> (\<forall>g\<in>set gs. is_graph_sourced g \<and> md_source_file (metadata g) = None)"
proof -
  from visit_node_shape [of "row_prev row" acc] obtain gs1 where
    1: "fst (visit_node (row_prev row) acc) = fst acc @ gs1"
       "\<forall>g\<in>set gs1. is_graph_sourced g \<and> md_source_file (metadata g) = None" by blast
  from visit_node_shape [of "row_next row" "visit_node (row_prev row) acc"] obtain gs2 where
    2: "fst (visit_row row acc) = fst (visit_node (row_prev row) acc) @ gs2"
       "\<forall>g\<in>set gs2. is_graph_sourced g \<and> md_source_file (metadata g) = None"
    unfolding visit_row_def by blast
  from 1 2 show ?thesis by (intro exI [of _ "gs1 @ gs2"]) auto
qed

lemma fold_visit_row_shape:
  "\<exists>gs. fst (fold visit_row rows acc) = fst acc @ gs
        \<and> (\<forall>g\<in>set gs. is_graph_sourced g \<and> md_source_file (metadata g) = None)"
proof (induction rows arbitrary: acc)
  case Nil
  then show ?case by simp
next
  case (Cons row rows)
  from visit_row_shape [of row acc] obtain gs1 where
    1: "fst (visit_row row acc) = fst acc @ gs1"
       "\<forall>g\<in>set gs1. is_graph_sourced g \<and> md_source_file (metadata g) = None" by blast
  from Cons.IH [of "visit_row row acc"] obtain gs2 where
    2: "fst (fold visit_row rows (visit_row row acc)) = fst (visit_row row acc) @ gs2"
       "\<forall>g\<in>set gs2. is_graph_sourced g \<and> md_source_file (metadata g) = None" by blast
  from 1 2 show ?case by (intro exI [of _ "gs1 @ gs2"]) auto
qed

lemma expand_docs_shape:
  "expand_docs window ds acc = Inr acc' \<Longrightarrow>
   \<exists>gs. fst acc' = fst acc @ gs
        \<and> (\<forall>g\<in>set gs. is_graph_sourced g \<and> md_source_file (metadata g) = None)"
proof (induction ds arbitrary: acc)
  case Nil
  then show ?case by simp
next
  case (Cons d ds)
  show ?case
  proof (cases "truthy (md_chunk_id (metadata d))")
    case False
    with Cons show ?thesis by simp
  next
    case True
    with Cons.prems obtain rows where
      rows: "window (the (md_chunk_id (metadata d))) 1 = Inr rows"
      and rest: "expand_docs window ds (fold visit_row rows acc) = Inr acc'"
      by (auto split: sum.splits)
    from fold_visit_row_shape [of rows acc] obtain gs1 where
      1: "fst (fold visit_row rows acc) = fst acc @ gs1"
         "\<forall>g\<in>set gs1. is_graph_sourced g \<and> md_source_file (metadata g) = None" by blast
    from Cons.IH [OF rest] obtain gs2 where
      2: "fst acc' = fst (fold visit_row rows acc) @ gs2"
         "\<forall>g\<in>set gs2. is_graph_sourced g \<and> md_source_file (metadata g) = None" by blast
    from 1 2 show ?thesis by (intro exI [of _ "gs1 @ gs2"]) auto
  qed
qed

lemma graph_expand_shape:
  "\<exists>gs. snd (graph_expand svc st) = initial_docs st @ gs
        \<and> (\<forall>g\<in>set gs. is_graph_sourced g \<and> md_source_file (metadata g) = None)"
proof (cases "graph_manager svc")
  case None
  then show ?thesis by (simp add: graph_expand_def)
next
  case (Some window)
  show ?thesis
  proof (cases "initial_docs st = []")
    case True
    with Some show ?thesis by (simp add: graph_expand_def)
  next
    case False
    show ?thesis
    proof (cases "expand_docs window (take 5 (initial_docs st)) ([], unique_ids st)")
      case (Inl e)
      with Some False show ?thesis by (simp add: graph_expand_def)
    next
      case (Inr acc')
      from expand_docs_shape [OF Inr] obtain gs where
        "fst acc' = gs" "\<forall>g\<in>set gs. is_graph_sourced g \<and> md_source_file (metadata g) = None"
        by auto
      with Some False Inr show ?thesis
        by (cases acc') (auto simp: graph_expand_def)
    qed
  qed
qed

lemma fused_candidates_shape:
  "\<exists>keptA keptB gs.
     snd (fused_candidates svc query cfg)
       = map (set_source_method ''BM25'') keptA @ map (set_source_method ''Vector'') keptB @ gs
   \<and> set keptA \<subseteq> set (lexical_recall svc query cfg)
   \<and> set keptB \<subseteq> set (vector_recall svc (rewrite_query svc query) cfg)
   \<and> (\<forall>g\<in>set gs. is_graph_sourced g \<and> md_source_file (metadata g) = None)"
proof -
  let ?A = "lexical_recall svc query cfg"
  let ?B = "vector_recall svc (rewrite_query svc query) cfg"
  from merge_dedup_general [of ?A ?B] obtain keptA keptB where
    1: "initial_docs (merge_dedup ?A ?B)
        = map (set_source_method ''BM25'') keptA @ map (set_source_method ''Vector'') keptB"
       "set keptA \<subseteq> set ?A" "set keptB \<subseteq> set ?B" by blast
  from graph_expand_shape [of svc "merge_dedup ?A ?B"] obtain gs where
    2: "snd (graph_expand svc (merge_dedup ?A ?B)) = initial_docs (merge_dedup ?A ?B) @ gs"
       "\<forall>g\<in>set gs. is_graph_sourced g \<and> md_source_file (metadata g) = None" by blast
  from 1 2 show ?thesis
    by (intro exI [of _ keptA] exI [of _ keptB] exI [of _ gs]) (simp add: fused_candidates_def)
qed

lemma fused_candidates_empty:
  "snd (fused_candidates svc query cfg) = []
   \<longleftrightarrow> lexical_recall svc query cfg = [] \<and> vector_recall svc (rewrite_query svc query) cfg = []"
proof -
  let ?st = "merge_dedup (lexical_recall svc query cfg) (vector_recall svc (rewrite_query svc query) cfg)"
  from graph_expand_shape [of svc ?st] obtain gs where
    gs: "snd (graph_expand svc ?st) = initial_docs ?st @ gs" by blast
  have "initial_docs ?st = [] \<Longrightarrow> snd (graph_expand svc ?st) = []"
    by (simp add: graph_expand_def split: option.splits)
  with gs have "snd (graph_expand svc ?st) = [] \<longleftrightarrow> initial_docs ?st = []" by auto
  then show ?thesis by (simp add: fused_candidates_def merge_dedup_empty)
qed

lemma tag_fields [simp]:
  "md_source_method (metadata (set_source_method m d)) = Some m"
  "md_source_file (metadata (set_source_method m d)) = md_source_file (metadata d)"
  "page_content (set_source_method m d) = page_content d"
  by (simp_all add: set_source_method_def)






lemma graph_document_score [simp]: "md_score (metadata (graph_document n)) = None"
  by (simp add: graph_document_def)

subsection \<open>Scope precedence\<close>

lemma build_filter_files:
  "fc_files cfg = Some files \<Longrightarrow> files \<noteq> [] \<Longrightarrow> build_filter cfg = Some (In ''source_file'' files)"
  by (simp add: build_filter_def build_conditions_def Let_def)

lemma fused_example:
  "snd (fused_candidates example_service ''excavators'' files_config)
   = [set_source_method ''BM25'' (item_document item_a),
      set_source_method ''BM25'' (item_document item_b),
      set_source_method ''Vector'' stored_vector_doc,
      graph_document \<lparr>node_id = ''doc_'', node_text = ''t0'', node_page = ''1'', node_index = 0\<rparr>,
      graph_document \<lparr>node_id = ''doc_||'', node_text = ''t2'', node_page = ''2'', node_index = 2\<rparr>]"
  by code_simp

lemma vector_example:
  "vector_recall example_service (rewrite_query example_service ''excavators'') files_config
   = [stored_vector_doc]"
  by code_simp

text \<open>
  C1 (as amended). When the configuration has a non-empty file list, the filter handed to the
  vector store is exactly "source file in the list": the project and category predicates are
  replaced, not combined with it. With a vector store that honours the filter it is given,
  every vector-sourced candidate of the fused list has its source file in the list.
  Graph-sourced candidates carry no source file.
\<close>

theorem scope_precedence_vector:
  assumes "fc_files cfg = Some files" and "files \<noteq> []"
    and "\<forall>f. build_filter cfg = Some f \<longrightarrow>
           (\<forall>d\<in>set (vector_recall svc (rewrite_query svc query) cfg). satisfies f d)"
  shows "build_filter cfg = Some (In ''source_file'' files)
       \<and> (\<forall>d\<in>set (snd (fused_candidates svc query cfg)).
            (md_source_method (metadata d) = Some ''Vector''
               \<longrightarrow> md_source_file (metadata d) \<in> Some ` set files)
          \<and> (md_source_method (metadata d) = Some ''Graph''
               \<longrightarrow> md_source_file (metadata d) = None))"
proof (intro conjI ballI)
  show flt: "build_filter cfg = Some (In ''source_file'' files)"
    using assms(1,2) by (rule build_filter_files)
  fix d assume d: "d \<in> set (snd (fused_candidates svc query cfg))"
  from fused_candidates_shape [of svc query cfg] obtain keptA keptB gs where
    shape: "snd (fused_candidates svc query cfg)
       = map (set_source_method ''BM25'') keptA @ map (set_source_method ''Vector'') keptB @ gs"
    and B: "set keptB \<subseteq> set (vector_recall svc (rewrite_query svc query) cfg)"
    and G: "\<forall>g\<in>set gs. is_graph_sourced g \<and> md_source_file (metadata g) = None"
    by blast
  from d shape consider
    (lex) a where "a \<in> set keptA" "d = set_source_method ''BM25'' a"
    | (vec) v where "v \<in> set keptB" "d = set_source_method ''Vector'' v"
    | (gra) "d \<in> set gs"
    by auto
  then show "md_source_method (metadata d) = Some ''Vector''
               \<longrightarrow> md_source_file (metadata d) \<in> Some ` set files"
  proof cases
    case lex
    then show ?thesis by simp
  next
    case vec
    with B have "v \<in> set (vector_recall svc (rewrite_query svc query) cfg)" by blast
    with assms(3) flt have "satisfies (In ''source_file'' files) v" by blast
    then have "md_source_file (metadata v) \<in> Some ` set files"
      by (auto simp: md_field_def split: option.splits)
    with vec show ?thesis by simp
  next
    case gra
    with G show ?thesis by (auto simp: is_graph_sourced_def)
  qed
  from d shape consider
    (lex) a where "a \<in> set keptA" "d = set_source_method ''BM25'' a"
    | (vec) v where "v \<in> set keptB" "d = set_source_method ''Vector'' v"
    | (gra) "d \<in> set gs"
    by auto
  then show "md_source_method (metadata d) = Some ''Graph''
               \<longrightarrow> md_source_file (metadata d) = None"
  proof cases
    case lex
    then show ?thesis by simp
  next
    case vec
    then show ?thesis by simp
  next
    case gra
    with G show ?thesis by blast
  qed
qed

theorem scope_precedence_vector_witness:
  "fc_files files_config = Some [''a.pdf''] \<and> [''a.pdf''] \<noteq> ([] :: string list)
   \<and> build_filter files_config = Some (In ''source_file'' [''a.pdf''])
   \<and> set_source_method ''Vector'' stored_vector_doc
        \<in> set (snd (fused_candidates example_service ''excavators'' files_config))
   \<and> list_all (\<lambda>d. (md_source_method (metadata d) = Some ''Vector''
                      \<longrightarrow> md_source_file (metadata d) \<in> Some ` set [''a.pdf''])
                  \<and> (md_source_method (metadata d) = Some ''Graph''
                      \<longrightarrow> md_source_file (metadata d) = None))
        (snd (fused_candidates example_service ''excavators'' files_config))"
proof -
  have h1: "fc_files files_config = Some [''a.pdf'']" by (simp add: files_config_def)
  have h2: "[''a.pdf''] \<noteq> ([] :: string list)" by simp
  have h3: "\<forall>f. build_filter files_config = Some f \<longrightarrow>
           (\<forall>d\<in>set (vector_recall example_service
                         (rewrite_query example_service ''excavators'') files_config).
              satisfies f d)"
    by (simp add: build_filter_files [OF h1 h2] vector_example stored_vector_doc_def md_field_def)
  have m: "set_source_method ''Vector'' stored_vector_doc
        \<in> set (snd (fused_candidates example_service ''excavators'' files_config))"
    by (simp add: fused_example)
  from scope_precedence_vector [OF h1 h2 h3] h1 h2 m show ?thesis
    unfolding list_all_iff by blast
qed

text \<open>
  C1 as stated fails for the other two sources. With the file list \<open>[a.pdf]\<close> and project
  \<open>P1\<close>, the lexical index is searched by project only and contributes \<open>item_b\<close> from
  b.pdf, and the two graph neighbours carry no source file at all.
\<close>

theorem scope_precedence_counterexample:
  "fc_files files_config = Some [''a.pdf'']
   \<and> map (\<lambda>d. (md_source_method (metadata d), md_source_file (metadata d)))
         (snd (fused_candidates example_service ''excavators'' files_config))
       = [(Some ''BM25'', Some ''a.pdf''), (Some ''BM25'', Some ''b.pdf''),
          (Some ''Vector'', Some ''a.pdf''), (Some ''Graph'', None), (Some ''Graph'', None)]
   \<and> \<not> (\<forall>d\<in>set (snd (fused_candidates example_service ''excavators'' files_config)).
            md_source_file (metadata d) \<in> Some ` set [''a.pdf''])"
  unfolding fused_example
  by (simp add: files_config_def set_source_method_def item_document_def
      item_a_def item_b_def stored_vector_doc_def graph_document_def)

subsection \<open>The event stream\<close>

lemma chat_stream_standard:
  assumes "\<not> writing_intent query"
  shows "chat_stream svc query history cfg =
     (case search_outcome svc query cfg of
        Inl e \<Rightarrow>
          \<lparr>events = [Status OptimizingQuery, Status (Searching (rewrite_query svc query))]
                     @ (if fst (fused_candidates svc query cfg) then [Status ExpandingGraph] else [])
                     @ fst (rerank_stage svc (rewrite_query svc query) (final_top_k cfg)
                              (snd (fused_candidates svc query cfg))),
           raised = Some e\<rparr>
      | Inr (final_docs, ctx) \<Rightarrow>
          \<lparr>events = [Status OptimizingQuery, Status (Searching (rewrite_query svc query))]
                     @ (if fst (fused_candidates svc query cfg) then [Status ExpandingGraph] else [])
                     @ fst (rerank_stage svc (rewrite_query svc query) (final_top_k cfg)
                              (snd (fused_candidates svc query cfg)))
                     @ answer_events svc history (rewrite_query svc query) final_docs ctx,
           raised = None\<rparr>)"
  using assms
  by (simp add: chat_stream_def search_outcome_def Let_def split: prod.splits sum.splits)

lemma rerank_status_only: "list_all is_status (fst (rerank_stage svc q k docs))"
  by (simp add: rerank_stage_def split: option.splits)

lemma generation_events_text: "list_all is_text (generation_events svc history ctx q)"
  by (simp add: generation_events_def list_all_iff split: prod.splits option.splits) auto

lemma status_not_sources: "list_all is_status es \<Longrightarrow> filter is_sources es = []"
proof (induction es)
  case Nil
  then show ?case by simp
next
  case (Cons e es)
  then show ?case by (cases e) simp_all
qed

lemma text_not_sources: "list_all is_text es \<Longrightarrow> filter is_sources es = []"
proof (induction es)
  case Nil
  then show ?case by simp
next
  case (Cons e es)
  then show ?case by (cases e) simp_all
qed

lemma writer_not_sources: "filter is_sources (map of_writer_event ws) = []"
proof (induction ws)
  case Nil
  then show ?case by simp
next
  case (Cons w ws)
  then show ?case by (cases w) simp_all
qed

lemma answer_events_one_sources:
  "length (filter is_sources (answer_events svc history q final_docs ctx)) = 1"
  by (simp add: answer_events_def text_not_sources [OF generation_events_text]
      split: option.splits prod.splits sum.splits)

lemma head_status:
  "list_all is_status
     ([Status OptimizingQuery, Status (Searching q)]
      @ (if g then [Status ExpandingGraph] else []) @ fst (rerank_stage svc q k docs))"
  using rerank_status_only [of svc q k docs] by simp

lemma no_text_before_sources_shape:
  "list_all is_status pre \<Longrightarrow> list_all is_text post \<Longrightarrow>
   no_text_before_sources (pre @ Sources docs # post)"
proof (induction pre)
  case Nil
  then show ?case
  proof (cases post)
    case Nil
    then show ?thesis by simp
  next
    case (Cons t ts)
    with Nil.prems have "is_text t" "list_all is_text ts" by simp_all
    then have "\<not> list_ex is_sources ts"
      using text_not_sources [of ts] by (simp add: list_ex_iff filter_empty_conv)
    with Cons \<open>is_text t\<close> show ?thesis by simp
  qed
next
  case (Cons e pre)
  then show ?case by (cases e) simp_all
qed

lemma no_text_before_sources_text:
  "list_all is_status pre \<Longrightarrow>
   no_text_before_sources (pre @ Text t # rest) = (\<not> list_ex is_sources rest)"
proof (induction pre)
  case Nil
  then show ?case by simp
next
  case (Cons e pre)
  then show ?case by (cases e) simp_all
qed





subsection \<open>Ordering of the sources event\<close>

lemma standard_run:
  "chat_stream example_service ''excavators'' [] files_config
   = \<lparr>events = [Status OptimizingQuery, Status (Searching ''excavators''), Status ExpandingGraph,
                 Sources (snd (fused_candidates example_service ''excavators'' files_config)),
                 Text ''The answer '', Text ''is 4.''],
      raised = None\<rparr>"
  by code_simp

lemma standard_outcome:
  "search_outcome example_service ''excavators'' files_config
   = Inr (snd (fused_candidates example_service ''excavators'' files_config),
          Citations (snd (fused_candidates example_service ''excavators'' files_config)))"
  by code_simp

lemma standard_no_excel:
  "detect_excel_task (snd (fused_candidates example_service ''excavators'' files_config)) = None"
  by code_simp

lemma standard_intent: "\<not> writing_intent ''excavators''"
  by code_simp

lemma excel_run:
  "chat_stream excel_service ''excavators'' [] open_config
   = \<lparr>events = [Status OptimizingQuery, Status (Searching ''excavators''), Status StartingPandas,
                 Text ''42'', Sources [set_source_method ''Vector'' excel_doc]],
      raised = None\<rparr>"
  by code_simp

lemma excel_failing_run:
  "chat_stream excel_failing_service ''excavators'' [] open_config
   = \<lparr>events = [Status OptimizingQuery, Status (Searching ''excavators''), Status StartingPandas,
                 Text (pandas_failure_text (BackendError ''no such sheet'')),
                 Sources [set_source_method ''Vector'' excel_doc],
                 Text ''The answer '', Text ''is 4.''],
      raised = None\<rparr>"
  by code_simp

lemma excel_outcome:
  "search_outcome excel_service ''excavators'' open_config
   = Inr ([set_source_method ''Vector'' excel_doc], Citations [set_source_method ''Vector'' excel_doc])"
  "search_outcome excel_failing_service ''excavators'' open_config
   = Inr ([set_source_method ''Vector'' excel_doc], Citations [set_source_method ''Vector'' excel_doc])"
  by code_simp+

lemma excel_detected:
  "detect_excel_task [set_source_method ''Vector'' excel_doc]
   = Some (''data_repository/P1/costs.xlsx'', Some ''Sheet1'')"
  by code_simp

text \<open>
  C6 (as amended). Every query emits at most one sources event, and exactly one when it is not
  handed to the writer workshop and the reranker does not raise. When no Excel task is
  detected among the final documents, the stream is status events, then the sources event with
  the final documents, then text events only: no text precedes the sources event. When an
  Excel task is detected, the stream is status events, then the text event of the Pandas
  agent, then the sources event: after the agent's result the sources event carries the first
  three final documents and ends the stream; after the agent's failure notice it carries the
  final documents and the text events of the answer follow. In both cases a text event
  precedes the sources event.
\<close>

theorem sources_event_once:
  "length (filter is_sources (events (chat_stream svc query history cfg))) \<le> 1
   \<and> (\<not> writing_intent query \<and> raised (chat_stream svc query history cfg) = None
        \<longrightarrow> length (filter is_sources (events (chat_stream svc query history cfg))) = 1)
   \<and> (\<forall>final_docs ctx.
         \<not> writing_intent query \<and> search_outcome svc query cfg = Inr (final_docs, ctx)
         \<and> detect_excel_task final_docs = None
        \<longrightarrow> no_text_before_sources (events (chat_stream svc query history cfg))
          \<and> (\<exists>pre post. events (chat_stream svc query history cfg) = pre @ Sources final_docs # post
                \<and> list_all is_status pre \<and> list_all is_text post))
   \<and> (\<forall>final_docs ctx file_path sheet_name.
         \<not> writing_intent query \<and> search_outcome svc query cfg = Inr (final_docs, ctx)
         \<and> detect_excel_task final_docs = Some (file_path, sheet_name)
        \<longrightarrow> \<not> no_text_before_sources (events (chat_stream svc query history cfg))
          \<and> (\<exists>pre. list_all is_status pre
                \<and> events (chat_stream svc query history cfg)
                    = pre @ (case pandas_agent svc file_path sheet_name (rewrite_query svc query) of
                               Inr agent_result \<Rightarrow>
                                 [Text agent_result, Sources (take 3 final_docs)]
                             | Inl e \<Rightarrow>
                                 Text (pandas_failure_text e) # Sources final_docs
                                   # generation_events svc history ctx (rewrite_query svc query))))"
proof (cases "writing_intent query")
  case True
  then show ?thesis by (simp add: chat_stream_def writer_not_sources)
next
  case False
  let ?head = "[Status OptimizingQuery, Status (Searching (rewrite_query svc query))]
                 @ (if fst (fused_candidates svc query cfg) then [Status ExpandingGraph] else [])
                 @ fst (rerank_stage svc (rewrite_query svc query) (final_top_k cfg)
                          (snd (fused_candidates svc query cfg)))"
  have hs: "list_all is_status ?head" by (rule head_status)
  then have h0: "filter is_sources ?head = []" by (rule status_not_sources)
  show ?thesis
  proof (cases "search_outcome svc query cfg")
    case (Inl e)
    with False have cs: "chat_stream svc query history cfg = \<lparr>events = ?head, raised = Some e\<rparr>"
      by (simp add: chat_stream_standard)
    show ?thesis using h0 Inl by (simp add: cs)
  next
    case (Inr p)
    obtain fd cx where p: "p = (fd, cx)" by (cases p)
    let ?q = "rewrite_query svc query"
    from False Inr p have cs: "chat_stream svc query history cfg
        = \<lparr>events = ?head @ answer_events svc history ?q fd cx, raised = None\<rparr>"
      by (simp add: chat_stream_standard)
    have one: "length (filter is_sources (events (chat_stream svc query history cfg))) = 1"
      using h0 answer_events_one_sources [of svc history ?q fd cx] by (simp add: cs)
    have shape: "no_text_before_sources (events (chat_stream svc query history cfg))
          \<and> (\<exists>pre post. events (chat_stream svc query history cfg) = pre @ Sources fd # post
                \<and> list_all is_status pre \<and> list_all is_text post)"
      if "detect_excel_task fd = None"
    proof -
      have ev: "events (chat_stream svc query history cfg)
                = ?head @ Sources fd # generation_events svc history cx ?q"
        using that by (simp add: cs answer_events_def)
      have "no_text_before_sources (?head @ Sources fd # generation_events svc history cx ?q)"
        using hs generation_events_text by (rule no_text_before_sources_shape)
      moreover have "\<exists>pre post. ?head @ Sources fd # generation_events svc history cx ?q
                        = pre @ Sources fd # post \<and> list_all is_status pre \<and> list_all is_text post"
        using hs generation_events_text by blast
      ultimately show ?thesis unfolding ev by blast
    qed
    have excel: "\<not> no_text_before_sources (events (chat_stream svc query history cfg))
          \<and> (\<exists>pre. list_all is_status pre
                \<and> events (chat_stream svc query history cfg)
                    = pre @ (case pandas_agent svc fp sh ?q of
                               Inr agent_result \<Rightarrow> [Text agent_result, Sources (take 3 fd)]
                             | Inl e \<Rightarrow>
                                 Text (pandas_failure_text e) # Sources fd
                                   # generation_events svc history cx ?q))"
      if "detect_excel_task fd = Some (fp, sh)" for fp sh
    proof -
      let ?pre = "?head @ [Status StartingPandas]"
      let ?rest = "case pandas_agent svc fp sh ?q of
                     Inr agent_result \<Rightarrow> [Text agent_result, Sources (take 3 fd)]
                   | Inl e \<Rightarrow> Text (pandas_failure_text e) # Sources fd
                                # generation_events svc history cx ?q"
      have ps: "list_all is_status ?pre" using hs by simp
      have ev: "events (chat_stream svc query history cfg) = ?pre @ ?rest"
        using that by (simp add: cs answer_events_def split: sum.splits)
      have "\<not> no_text_before_sources (?pre @ ?rest)"
      proof (cases "pandas_agent svc fp sh ?q")
        case (Inl e)
        then show ?thesis
          using no_text_before_sources_text [OF ps, of "pandas_failure_text e"
              "Sources fd # generation_events svc history cx ?q"]
          by simp
      next
        case (Inr r)
        then show ?thesis
          using no_text_before_sources_text [OF ps, of r "[Sources (take 3 fd)]"] by simp
      qed
      with ps ev show ?thesis by metis
    qed
    show ?thesis using one shape excel Inr p by auto
  qed
qed

theorem sources_event_once_witness:
  "\<not> writing_intent ''excavators''
   \<and> raised (chat_stream example_service ''excavators'' [] files_config) = None
   \<and> detect_excel_task (snd (fused_candidates example_service ''excavators'' files_config)) = None
   \<and> length (filter is_sources (events (chat_stream example_service ''excavators'' [] files_config))) = 1
   \<and> no_text_before_sources (events (chat_stream example_service ''excavators'' [] files_config))
   \<and> events (chat_stream example_service ''excavators'' [] files_config)
       = [Status OptimizingQuery, Status (Searching ''excavators''), Status ExpandingGraph]
         @ Sources (snd (fused_candidates example_service ''excavators'' files_config))
         # [Text ''The answer '', Text ''is 4.'']
   \<and> detect_excel_task [set_source_method ''Vector'' excel_doc]
       = Some (''data_repository/P1/costs.xlsx'', Some ''Sheet1'')
   \<and> \<not> no_text_before_sources (events (chat_stream excel_service ''excavators'' [] open_config))
   \<and> events (chat_stream excel_service ''excavators'' [] open_config)
       = [Status OptimizingQuery, Status (Searching ''excavators''), Status StartingPandas]
         @ [Text ''42'', Sources (take 3 [set_source_method ''Vector'' excel_doc])]
   \<and> \<not> no_text_before_sources (events (chat_stream excel_failing_service ''excavators'' [] open_config))
   \<and> events (chat_stream excel_failing_service ''excavators'' [] open_config)
       = [Status OptimizingQuery, Status (Searching ''excavators''), Status StartingPandas]
         @ Text (pandas_failure_text (BackendError ''no such sheet''))
         # Sources [set_source_method ''Vector'' excel_doc]
         # [Text ''The answer '', Text ''is 4.'']"
proof -
  have r: "raised (chat_stream example_service ''excavators'' [] files_config) = None"
    by (simp add: standard_run)
  note inst = sources_event_once [of example_service "''excavators''" "[]" files_config]
  from inst standard_intent r
  have one: "length (filter is_sources (events (chat_stream example_service ''excavators'' [] files_config))) = 1"
    by blast
  from inst standard_intent standard_outcome standard_no_excel
  have nt: "no_text_before_sources (events (chat_stream example_service ''excavators'' [] files_config))"
    by blast
  have ev: "events (chat_stream example_service ''excavators'' [] files_config)
       = [Status OptimizingQuery, Status (Searching ''excavators''), Status ExpandingGraph]
         @ Sources (snd (fused_candidates example_service ''excavators'' files_config))
         # [Text ''The answer '', Text ''is 4.'']"
    by (simp add: standard_run)
  note ok = sources_event_once [of excel_service "''excavators''" "[]" open_config]
  from ok standard_intent excel_outcome(1) excel_detected
  have x1: "\<not> no_text_before_sources (events (chat_stream excel_service ''excavators'' [] open_config))"
    by blast
  have x2: "events (chat_stream excel_service ''excavators'' [] open_config)
       = [Status OptimizingQuery, Status (Searching ''excavators''), Status StartingPandas]
         @ [Text ''42'', Sources (take 3 [set_source_method ''Vector'' excel_doc])]"
    by (simp add: excel_run)
  note bad = sources_event_once [of excel_failing_service "''excavators''" "[]" open_config]
  from bad standard_intent excel_outcome(2) excel_detected
  have y1: "\<not> no_text_before_sources
               (events (chat_stream excel_failing_service ''excavators'' [] open_config))"
    by blast
  have y2: "events (chat_stream excel_failing_service ''excavators'' [] open_config)
       = [Status OptimizingQuery, Status (Searching ''excavators''), Status StartingPandas]
         @ Text (pandas_failure_text (BackendError ''no such sheet''))
         # Sources [set_source_method ''Vector'' excel_doc]
         # [Text ''The answer '', Text ''is 4.'']"
    by (simp add: excel_failing_run)
  from standard_intent r standard_no_excel one nt ev excel_detected x1 x2 y1 y2
  show ?thesis by blast
qed

text \<open>
  C6 as stated fails on the Pandas path: when the only hit is a table of an Excel workbook,
  the agent's result is emitted as a text event and the sources event comes after it.
\<close>

theorem sources_order_counterexample:
  "events (chat_stream excel_service ''excavators'' [] open_config)
     = [Status OptimizingQuery, Status (Searching ''excavators''), Status StartingPandas,
        Text ''42'', Sources [set_source_method ''Vector'' excel_doc]]
   \<and> \<not> no_text_before_sources (events (chat_stream excel_service ''excavators'' [] open_config))"
  by code_simp

subsection \<open>Rank of graph-sourced candidates\<close>










subsection \<open>Degradation of recall\<close>

lemma search_outcome_cases:
  "search_outcome svc query cfg =
     (if snd (fused_candidates svc query cfg) = [] then Inr ([], GeneralKnowledgeDisclaimer)
      else case reranker svc of
             None \<Rightarrow> Inr (take (final_top_k cfg) (snd (fused_candidates svc query cfg)),
                          Citations (take (final_top_k cfg) (snd (fused_candidates svc query cfg))))
           | Some rerank \<Rightarrow>
               (case rerank (rewrite_query svc query) (snd (fused_candidates svc query cfg))
                             (final_top_k cfg) of
                  Inl e \<Rightarrow> Inl e
                | Inr final_docs \<Rightarrow> Inr (final_docs, Citations final_docs)))"
  by (simp add: search_outcome_def rerank_stage_def split: option.splits)

lemma raised_only_by_reranker:
  assumes "raised (chat_stream svc query history cfg) = Some e"
  shows "\<exists>rerank. reranker svc = Some rerank
           \<and> rerank (rewrite_query svc query) (snd (fused_candidates svc query cfg))
                (final_top_k cfg) = Inl e"
proof (cases "writing_intent query")
  case True
  with assms show ?thesis by (simp add: chat_stream_def)
next
  case False
  with assms have "search_outcome svc query cfg = Inl e"
    by (auto simp: chat_stream_standard split: sum.splits prod.splits)
  then show ?thesis
    by (auto simp: search_outcome_cases split: if_splits option.splits sum.splits)
qed

lemma lexical_recall_down:
  "bm25_manager svc = None \<or> (\<exists>search e. bm25_manager svc = Some search \<and> (\<forall>t. search query t 5 = Inl e))
   \<Longrightarrow> lexical_recall svc query cfg = []"
  by (auto simp: lexical_recall_def split: option.splits)

lemma vector_recall_down:
  "vector_store svc = None
   \<or> (\<exists>retrieve e. vector_store svc = Some retrieve
         \<and> retrieve (build_filter cfg) (final_top_k cfg * 5) (rewrite_query svc query) = Inl e)
   \<Longrightarrow> vector_recall svc (rewrite_query svc query) cfg = []"
  by (auto simp: vector_recall_def split: option.splits)

lemma clearjunk_distinct_id: "distinct (map fst al) \<Longrightarrow> AList.clearjunk al = al"
proof (induction al)
  case Nil
  then show ?case by simp
next
  case (Cons p al)
  from Cons.prems have "fst p \<notin> fst ` set al" by simp
  then have "AList.delete (fst p) al = al" by (rule AList.delete_id)
  with Cons show ?case by simp
qed

lemma answer_events_sources:
  "filter is_sources (answer_events svc history q final_docs ctx) = [Sources final_docs]
   \<or> filter is_sources (answer_events svc history q final_docs ctx) = [Sources (take 3 final_docs)]"
proof -
  have g: "filter is_sources (generation_events svc history ctx q) = []"
    using generation_events_text by (rule text_not_sources)
  show ?thesis
  proof (cases "detect_excel_task final_docs")
    case None
    with g show ?thesis by (simp add: answer_events_def)
  next
    case (Some task)
    obtain fp sh where task: "task = (fp, sh)" by (cases task)
    show ?thesis
    proof (cases "pandas_agent svc fp sh q")
      case (Inl e)
      with g Some task show ?thesis by (simp add: answer_events_def)
    next
      case (Inr r)
      with Some task show ?thesis by (simp add: answer_events_def)
    qed
  qed
qed

lemma stream_without_reranker:
  assumes "\<not> writing_intent query" and "reranker svc = None"
  shows "chat_stream svc query history cfg
     = \<lparr>events = [Status OptimizingQuery, Status (Searching (rewrite_query svc query))]
                 @ (if fst (fused_candidates svc query cfg) then [Status ExpandingGraph] else [])
                 @ answer_events svc history (rewrite_query svc query)
                     (take (final_top_k cfg) (snd (fused_candidates svc query cfg)))
                     (if snd (fused_candidates svc query cfg) = [] then GeneralKnowledgeDisclaimer
                      else Citations (take (final_top_k cfg) (snd (fused_candidates svc query cfg)))),
        raised = None\<rparr>"
  using assms
  by (simp add: chat_stream_standard search_outcome_cases rerank_stage_def)

lemma vector_only_candidates:
  assumes "lexical_recall svc query cfg = []"
  shows "\<exists>gs. snd (fused_candidates svc query cfg)
               = map snd (AList.clearjunk
                   (map (\<lambda>d. (dedup_key d,
                               d\<lparr>metadata := (metadata d)\<lparr>md_source_method := Some ''Vector''\<rparr>\<rparr>))
                        (vector_recall svc (rewrite_query svc query) cfg))) @ gs
             \<and> list_all is_graph_sourced gs"
proof -
  let ?B = "vector_recall svc (rewrite_query svc query) cfg"
  have "initial_docs (merge_dedup [] ?B)
        = map snd (AList.clearjunk
            (map (\<lambda>d. (dedup_key d,
                        d\<lparr>metadata := (metadata d)\<lparr>md_source_method := Some ''Vector''\<rparr>\<rparr>)) ?B))"
    using merge_dedup_exact(1) [of "[]" ?B] by (simp add: set_source_method_def [abs_def])
  moreover from graph_expand_shape [of svc "merge_dedup [] ?B"] obtain gs where
    "snd (graph_expand svc (merge_dedup [] ?B)) = initial_docs (merge_dedup [] ?B) @ gs"
    "\<forall>g\<in>set gs. is_graph_sourced g \<and> md_source_file (metadata g) = None" by blast
  ultimately show ?thesis
    using assms by (intro exI [of _ gs]) (simp add: fused_candidates_def list_all_iff)
qed

lemma no_lexical_facts:
  "bm25_manager no_lexical_service = None" "reranker no_lexical_service = None"
  "vector_recall no_lexical_service (rewrite_query no_lexical_service ''excavators'') files_config
   = [stored_vector_doc]"
  "final_top_k files_config = 6"
  by (simp_all add: no_lexical_service_def example_service_def final_top_k_def files_config_def)
     code_simp

lemma no_lexical_run:
  "chat_stream no_lexical_service ''excavators'' [] files_config
   = \<lparr>events = [Status OptimizingQuery, Status (Searching ''excavators''), Status ExpandingGraph,
                 Sources [stored_vector_doc\<lparr>metadata := (metadata stored_vector_doc)
                                              \<lparr>md_source_method := Some ''Vector''\<rparr>\<rparr>,
                          graph_document \<lparr>node_id = ''doc_'', node_text = ''t0'',
                                          node_page = ''1'', node_index = 0\<rparr>,
                          graph_document \<lparr>node_id = ''doc_||'', node_text = ''t2'',
                                          node_page = ''2'', node_index = 2\<rparr>],
                 Text ''The answer '', Text ''is 4.''],
      raised = None\<rparr>"
  by code_simp

lemma recall_down_facts:
  "bm25_manager recall_down_service = None"
  "vector_store recall_down_service = Some (\<lambda>flt k q. Inl (BackendError ''unreachable''))"
  "rewrite_query recall_down_service ''excavators'' = ''excavators''"
  "generation_events recall_down_service [] GeneralKnowledgeDisclaimer ''excavators''
   = [Text ''The answer '', Text ''is 4.'']"
  "reranker recall_down_service = None"
  by (simp_all add: recall_down_service_def example_service_def rewrite_query_def
      generation_events_def)

text \<open>
  C7. Whatever the vector store and the lexical index do, including raising or not being
  configured, the generator raises only if a configured reranker raises, and the service as
  shipped has none: a failing or missing recall source just contributes no candidates. With
  no lexical candidates, a vector store that returns matches and a positive \<open>top_k\<close>, a query
  that is not handed to the writer workshop yields a stream with exactly one sources event,
  and its list is not empty: the final list is the first \<open>top_k\<close> of the vector matches in the
  store's order (one per key, tagged Vector, the best match first), followed by graph
  neighbours, and the answer is generated from their citations. The fused list is empty
  exactly when both recall sources give nothing; the context then is the general-knowledge
  disclaimer, and the stream is: two status events, an empty sources event, the answer; no
  exception.
\<close>

theorem recall_degrades_gracefully:
  "(reranker svc = None \<longrightarrow> raised (chat_stream svc query history cfg) = None)
   \<and> (\<forall>e. raised (chat_stream svc query history cfg) = Some e
           \<longrightarrow> (\<exists>rerank. reranker svc = Some rerank
                  \<and> rerank (rewrite_query svc query) (snd (fused_candidates svc query cfg))
                       (final_top_k cfg) = Inl e))
   \<and> (bm25_manager svc = None
         \<or> (\<exists>search e. bm25_manager svc = Some search \<and> (\<forall>t. search query t 5 = Inl e))
        \<longrightarrow> lexical_recall svc query cfg = [])
   \<and> (vector_store svc = None
         \<or> (\<exists>retrieve e. vector_store svc = Some retrieve
               \<and> retrieve (build_filter cfg) (final_top_k cfg * 5) (rewrite_query svc query) = Inl e)
        \<longrightarrow> vector_recall svc (rewrite_query svc query) cfg = [])
   \<and> (\<not> writing_intent query \<and> reranker svc = None
        \<and> lexical_recall svc query cfg = []
        \<and> vector_recall svc (rewrite_query svc query) cfg \<noteq> []
        \<and> 0 < final_top_k cfg
        \<longrightarrow> (\<exists>gs final docs.
               list_all is_graph_sourced gs
             \<and> final = take (final_top_k cfg)
                         (map snd (AList.clearjunk
                            (map (\<lambda>d. (dedup_key d,
                                        d\<lparr>metadata := (metadata d)\<lparr>md_source_method := Some ''Vector''\<rparr>\<rparr>))
                                 (vector_recall svc (rewrite_query svc query) cfg))) @ gs)
             \<and> final \<noteq> []
             \<and> hd final
                 = (hd (vector_recall svc (rewrite_query svc query) cfg))
                     \<lparr>metadata := (metadata (hd (vector_recall svc (rewrite_query svc query) cfg)))
                                    \<lparr>md_source_method := Some ''Vector''\<rparr>\<rparr>
             \<and> (distinct (map dedup_key (vector_recall svc (rewrite_query svc query) cfg))
                  \<longrightarrow> final = take (final_top_k cfg)
                         (map (\<lambda>d. d\<lparr>metadata := (metadata d)\<lparr>md_source_method := Some ''Vector''\<rparr>\<rparr>)
                              (vector_recall svc (rewrite_query svc query) cfg) @ gs))
             \<and> chat_stream svc query history cfg
                 = \<lparr>events = [Status OptimizingQuery, Status (Searching (rewrite_query svc query))]
                             @ (if fst (fused_candidates svc query cfg)
                                then [Status ExpandingGraph] else [])
                             @ answer_events svc history (rewrite_query svc query) final
                                 (Citations final),
                    raised = None\<rparr>
             \<and> filter is_sources (events (chat_stream svc query history cfg)) = [Sources docs]
             \<and> docs \<noteq> [] \<and> (docs = final \<or> docs = take 3 final)))
   \<and> ((snd (fused_candidates svc query cfg) = [])
        = (lexical_recall svc query cfg = []
           \<and> vector_recall svc (rewrite_query svc query) cfg = []))
   \<and> ((\<exists>final. search_outcome svc query cfg = Inr (final, GeneralKnowledgeDisclaimer))
        = (lexical_recall svc query cfg = []
           \<and> vector_recall svc (rewrite_query svc query) cfg = []))
   \<and> (\<not> writing_intent query \<and> lexical_recall svc query cfg = []
        \<and> vector_recall svc (rewrite_query svc query) cfg = []
        \<longrightarrow> chat_stream svc query history cfg
            = \<lparr>events = [Status OptimizingQuery, Status (Searching (rewrite_query svc query)),
                          Sources []]
                         @ generation_events svc history GeneralKnowledgeDisclaimer
                             (rewrite_query svc query),
               raised = None\<rparr>)"
proof (intro conjI impI allI)
  assume "reranker svc = None"
  then show "raised (chat_stream svc query history cfg) = None"
    using raised_only_by_reranker [of svc query history cfg]
    by (cases "raised (chat_stream svc query history cfg)") auto
next
  fix e assume "raised (chat_stream svc query history cfg) = Some e"
  then show "\<exists>rerank. reranker svc = Some rerank
                  \<and> rerank (rewrite_query svc query) (snd (fused_candidates svc query cfg))
                       (final_top_k cfg) = Inl e"
    by (rule raised_only_by_reranker)
next
  assume "bm25_manager svc = None
         \<or> (\<exists>search e. bm25_manager svc = Some search \<and> (\<forall>t. search query t 5 = Inl e))"
  then show "lexical_recall svc query cfg = []" by (rule lexical_recall_down)
next
  assume "vector_store svc = None
         \<or> (\<exists>retrieve e. vector_store svc = Some retrieve
               \<and> retrieve (build_filter cfg) (final_top_k cfg * 5) (rewrite_query svc query) = Inl e)"
  then show "vector_recall svc (rewrite_query svc query) cfg = []" by (rule vector_recall_down)
next
  let ?B = "vector_recall svc (rewrite_query svc query) cfg"
  let ?q = "rewrite_query svc query"
  let ?tag = "\<lambda>d. d\<lparr>metadata := (metadata d)\<lparr>md_source_method := Some ''Vector''\<rparr>\<rparr>"
  let ?L = "map snd (AList.clearjunk (map (\<lambda>d. (dedup_key d, ?tag d)) ?B))"
  assume h: "\<not> writing_intent query \<and> reranker svc = None
        \<and> lexical_recall svc query cfg = [] \<and> ?B \<noteq> [] \<and> 0 < final_top_k cfg"
  then obtain gs where fused: "snd (fused_candidates svc query cfg) = ?L @ gs"
    and gs: "list_all is_graph_sourced gs"
    using vector_only_candidates [of svc query cfg] by blast
  let ?final = "take (final_top_k cfg) (?L @ gs)"
  from h obtain b B' where B: "?B = b # B'" by (cases ?B) auto
  obtain j where k: "final_top_k cfg = Suc j" using h by (cases "final_top_k cfg") auto
  have L: "?L = ?tag b # map snd (AList.clearjunk (AList.delete (dedup_key b)
                                   (map (\<lambda>d. (dedup_key d, ?tag d)) B')))"
    by (simp add: B)
  have fne: "?final \<noteq> []" by (simp add: L k)
  have fhd: "hd ?final = ?tag (hd ?B)" by (simp add: L k B)
  have fd: "?final = take (final_top_k cfg) (map ?tag ?B @ gs)" if "distinct (map dedup_key ?B)"
  proof -
    from that have "distinct (map fst (map (\<lambda>d. (dedup_key d, ?tag d)) ?B))"
      by (simp add: comp_def)
    then have "AList.clearjunk (map (\<lambda>d. (dedup_key d, ?tag d)) ?B)
               = map (\<lambda>d. (dedup_key d, ?tag d)) ?B"
      by (rule clearjunk_distinct_id)
    then show ?thesis by (simp add: comp_def)
  qed
  from fused fne have ne: "snd (fused_candidates svc query cfg) \<noteq> []" by auto
  have cs: "chat_stream svc query history cfg
                 = \<lparr>events = [Status OptimizingQuery, Status (Searching ?q)]
                             @ (if fst (fused_candidates svc query cfg)
                                then [Status ExpandingGraph] else [])
                             @ answer_events svc history ?q ?final (Citations ?final),
                    raised = None\<rparr>"
  proof -
    from h have nw: "\<not> writing_intent query" and nr: "reranker svc = None" by simp_all
    from fne have "?L @ gs \<noteq> []" by auto
    then have c: "(if ?L @ gs = [] then GeneralKnowledgeDisclaimer else Citations ?final)
                     = Citations ?final"
      by simp
    show ?thesis
      using stream_without_reranker [OF nw nr, of history cfg] by (simp only: fused c)
  qed
  have "filter is_sources (events (chat_stream svc query history cfg))
        = filter is_sources (answer_events svc history ?q ?final (Citations ?final))"
    by (simp add: cs)
  with answer_events_sources [of svc history ?q ?final "Citations ?final"]
  have "\<exists>docs. filter is_sources (events (chat_stream svc query history cfg)) = [Sources docs]
          \<and> (docs = ?final \<or> docs = take 3 ?final)"
    by auto
  then obtain docs where
    src: "filter is_sources (events (chat_stream svc query history cfg)) = [Sources docs]"
    and dd: "docs = ?final \<or> docs = take 3 ?final"
    by blast
  from dd fne have dne: "docs \<noteq> []" by (cases ?final) auto
  from gs fne fhd fd cs src dne dd
  show "\<exists>gs final docs.
               list_all is_graph_sourced gs
             \<and> final = take (final_top_k cfg) (?L @ gs)
             \<and> final \<noteq> []
             \<and> hd final = ?tag (hd ?B)
             \<and> (distinct (map dedup_key ?B)
                  \<longrightarrow> final = take (final_top_k cfg) (map ?tag ?B @ gs))
             \<and> chat_stream svc query history cfg
                 = \<lparr>events = [Status OptimizingQuery, Status (Searching ?q)]
                             @ (if fst (fused_candidates svc query cfg)
                                then [Status ExpandingGraph] else [])
                             @ answer_events svc history ?q final (Citations final),
                    raised = None\<rparr>
             \<and> filter is_sources (events (chat_stream svc query history cfg)) = [Sources docs]
             \<and> docs \<noteq> [] \<and> (docs = final \<or> docs = take 3 final)"
    by blast
next
  show "(snd (fused_candidates svc query cfg) = [])
        = (lexical_recall svc query cfg = []
           \<and> vector_recall svc (rewrite_query svc query) cfg = [])"
    by (rule fused_candidates_empty)
next
  show "(\<exists>final. search_outcome svc query cfg = Inr (final, GeneralKnowledgeDisclaimer))
        = (lexical_recall svc query cfg = []
           \<and> vector_recall svc (rewrite_query svc query) cfg = [])"
    unfolding fused_candidates_empty [symmetric]
    by (auto simp: search_outcome_cases split: option.splits sum.splits)
next
  assume h: "\<not> writing_intent query \<and> lexical_recall svc query cfg = []
        \<and> vector_recall svc (rewrite_query svc query) cfg = []"
  then have e: "snd (fused_candidates svc query cfg) = []"
    by (simp add: fused_candidates_empty)
  have g: "\<not> fst (fused_candidates svc query cfg)"
    using h by (simp add: fused_candidates_def graph_expand_def merge_dedup_def merge_items_def
        split: option.splits)
  have d: "detect_excel_task [] = None"
    by (simp add: detect_excel_task_def excel_votes_def)
  from h show "chat_stream svc query history cfg
            = \<lparr>events = [Status OptimizingQuery, Status (Searching (rewrite_query svc query)),
                          Sources []]
                         @ generation_events svc history GeneralKnowledgeDisclaimer
                             (rewrite_query svc query),
               raised = None\<rparr>"
    by (simp add: chat_stream_standard search_outcome_cases e g rerank_stage_def answer_events_def d)
qed

theorem recall_degrades_gracefully_witness:
  "\<not> writing_intent ''excavators''
   \<and> bm25_manager no_lexical_service = None \<and> reranker no_lexical_service = None
   \<and> raised (chat_stream no_lexical_service ''excavators'' [] files_config) = None
   \<and> lexical_recall no_lexical_service ''excavators'' files_config = []
   \<and> vector_recall no_lexical_service (rewrite_query no_lexical_service ''excavators'') files_config
       = [stored_vector_doc]
   \<and> (\<exists>docs. filter is_sources (events (chat_stream no_lexical_service ''excavators'' [] files_config))
                = [Sources docs]
            \<and> docs \<noteq> []
            \<and> hd docs = stored_vector_doc\<lparr>metadata := (metadata stored_vector_doc)
                                          \<lparr>md_source_method := Some ''Vector''\<rparr>\<rparr>)
   \<and> events (chat_stream no_lexical_service ''excavators'' [] files_config)
       = [Status OptimizingQuery, Status (Searching ''excavators''), Status ExpandingGraph,
          Sources [stored_vector_doc\<lparr>metadata := (metadata stored_vector_doc)
                                       \<lparr>md_source_method := Some ''Vector''\<rparr>\<rparr>,
                   graph_document \<lparr>node_id = ''doc_'', node_text = ''t0'',
                                   node_page = ''1'', node_index = 0\<rparr>,
                   graph_document \<lparr>node_id = ''doc_||'', node_text = ''t2'',
                                   node_page = ''2'', node_index = 2\<rparr>],
          Text ''The answer '', Text ''is 4.'']
   \<and> lexical_recall recall_down_service ''excavators'' files_config = []
   \<and> vector_recall recall_down_service (rewrite_query recall_down_service ''excavators'') files_config = []
   \<and> snd (fused_candidates recall_down_service ''excavators'' files_config) = []
   \<and> chat_stream recall_down_service ''excavators'' [] files_config
       = \<lparr>events = [Status OptimizingQuery, Status (Searching ''excavators''), Sources [],
                     Text ''The answer '', Text ''is 4.''],
          raised = None\<rparr>"
proof -
  note a = recall_degrades_gracefully [of no_lexical_service "''excavators''" "[]" files_config]
  note b = recall_degrades_gracefully [of recall_down_service "''excavators''" "[]" files_config]
  from a no_lexical_facts(2)
  have a1: "raised (chat_stream no_lexical_service ''excavators'' [] files_config) = None" by blast
  from a no_lexical_facts(1)
  have a2: "lexical_recall no_lexical_service ''excavators'' files_config = []" by blast
  have n: "vector_recall no_lexical_service (rewrite_query no_lexical_service ''excavators'')
             files_config \<noteq> []" "0 < final_top_k files_config"
    by (simp_all add: no_lexical_facts)
  from a standard_intent no_lexical_facts(2) a2 n
  have "\<exists>final docs.
          final \<noteq> []
        \<and> hd final
            = (hd (vector_recall no_lexical_service
                     (rewrite_query no_lexical_service ''excavators'') files_config))
                \<lparr>metadata := (metadata (hd (vector_recall no_lexical_service
                     (rewrite_query no_lexical_service ''excavators'') files_config)))
                               \<lparr>md_source_method := Some ''Vector''\<rparr>\<rparr>
        \<and> filter is_sources (events (chat_stream no_lexical_service ''excavators'' [] files_config))
            = [Sources docs]
        \<and> docs \<noteq> [] \<and> (docs = final \<or> docs = take 3 final)"
    by blast
  then obtain final docs where
    f: "final \<noteq> []"
      "hd final = stored_vector_doc\<lparr>metadata := (metadata stored_vector_doc)
                                          \<lparr>md_source_method := Some ''Vector''\<rparr>\<rparr>"
      "filter is_sources (events (chat_stream no_lexical_service ''excavators'' [] files_config))
            = [Sources docs]"
      "docs \<noteq> []" "docs = final \<or> docs = take 3 final"
    by (auto simp: no_lexical_facts)
  from f(1,5) have "hd docs = hd final" by (cases final) auto
  with f have a3: "\<exists>docs. filter is_sources (events (chat_stream no_lexical_service ''excavators'' [] files_config))
                = [Sources docs]
            \<and> docs \<noteq> []
            \<and> hd docs = stored_vector_doc\<lparr>metadata := (metadata stored_vector_doc)
                                          \<lparr>md_source_method := Some ''Vector''\<rparr>\<rparr>"
    by auto
  have a4: "events (chat_stream no_lexical_service ''excavators'' [] files_config)
       = [Status OptimizingQuery, Status (Searching ''excavators''), Status ExpandingGraph,
          Sources [stored_vector_doc\<lparr>metadata := (metadata stored_vector_doc)
                                       \<lparr>md_source_method := Some ''Vector''\<rparr>\<rparr>,
                   graph_document \<lparr>node_id = ''doc_'', node_text = ''t0'',
                                   node_page = ''1'', node_index = 0\<rparr>,
                   graph_document \<lparr>node_id = ''doc_||'', node_text = ''t2'',
                                   node_page = ''2'', node_index = 2\<rparr>],
          Text ''The answer '', Text ''is 4.'']"
    by (simp add: no_lexical_run)
  from b recall_down_facts(1)
  have b1: "lexical_recall recall_down_service ''excavators'' files_config = []" by blast
  have "\<exists>retrieve e. vector_store recall_down_service = Some retrieve
         \<and> retrieve (build_filter files_config) (final_top_k files_config * 5)
              (rewrite_query recall_down_service ''excavators'') = Inl e"
    by (simp add: recall_down_facts)
  with b
  have b2: "vector_recall recall_down_service (rewrite_query recall_down_service ''excavators'')
              files_config = []" by blast
  from b b1 b2
  have b3: "snd (fused_candidates recall_down_service ''excavators'' files_config) = []" by blast
  from b b1 b2 standard_intent
  have "chat_stream recall_down_service ''excavators'' [] files_config
            = \<lparr>events = [Status OptimizingQuery,
                          Status (Searching (rewrite_query recall_down_service ''excavators'')),
                          Sources []]
                         @ generation_events recall_down_service [] GeneralKnowledgeDisclaimer
                             (rewrite_query recall_down_service ''excavators''),
               raised = None\<rparr>" by blast
  then have b4: "chat_stream recall_down_service ''excavators'' [] files_config
       = \<lparr>events = [Status OptimizingQuery, Status (Searching ''excavators''), Sources [],
                     Text ''The answer '', Text ''is 4.''],
          raised = None\<rparr>"
    by (simp add: recall_down_facts)
  from standard_intent no_lexical_facts(1,2,3) a1 a2 a3 a4 b1 b2 b3 b4 show ?thesis by blast
qed

section \<open>The chain graph and its neighbour window\<close>




































end
